theory Spec2Isabelle
  imports Complex_Main
begin

section \<open>Numbers, cells and data frames\<close>

text \<open>
  The module \<^verbatim>\<open>utils/data_processor.py\<close> works on pandas data frames whose
  numeric cells are binary64 numbers. A number is modelled as an exact real or one of the
  three special values; rounding and overflow of finite results are not modelled, and the
  two zeros are identified (so a positive number divided by zero is \<open>PInf\<close>).
  The special cases of the arithmetic are the IEEE ones that numpy applies without raising.
\<close>

datatype fval = Fin real | PInf | NInf | NaN

fun fneg :: "fval \<Rightarrow> fval" where
  "fneg (Fin a) = Fin (- a)"
| "fneg PInf = NInf"
| "fneg NInf = PInf"
| "fneg NaN = NaN"

fun fadd :: "fval \<Rightarrow> fval \<Rightarrow> fval" where
  "fadd NaN y = NaN"
| "fadd x NaN = NaN"
| "fadd (Fin a) (Fin b) = Fin (a + b)"
| "fadd PInf NInf = NaN"
| "fadd NInf PInf = NaN"
| "fadd PInf y = PInf"
| "fadd x PInf = PInf"
| "fadd NInf y = NInf"
| "fadd x NInf = NInf"

definition fsub :: "fval \<Rightarrow> fval \<Rightarrow> fval" where
  "fsub x y = fadd x (fneg y)"

fun fscale :: "fval \<Rightarrow> real \<Rightarrow> fval" where
  \<comment> \<open>an infinity times a finite number\<close>
  "fscale x b = (if b = 0 then NaN else if 0 < b then x else fneg x)"

fun fmul :: "fval \<Rightarrow> fval \<Rightarrow> fval" where
  "fmul NaN y = NaN"
| "fmul x NaN = NaN"
| "fmul (Fin a) (Fin b) = Fin (a * b)"
| "fmul (Fin a) y = fscale y a"
| "fmul x (Fin b) = fscale x b"
| "fmul PInf y = y"
| "fmul NInf y = fneg y"

fun fdiv :: "fval \<Rightarrow> fval \<Rightarrow> fval" where
  "fdiv NaN y = NaN"
| "fdiv x NaN = NaN"
| "fdiv (Fin a) (Fin b) =
     (if b \<noteq> 0 then Fin (a / b)
      else if 0 < a then PInf else if a < 0 then NInf else NaN)"
| "fdiv (Fin a) y = Fin 0"
| "fdiv x (Fin b) = (if 0 \<le> b then x else fneg x)"
| "fdiv x y = NaN"

fun fabs :: "fval \<Rightarrow> fval" where
  "fabs (Fin a) = Fin \<bar>a\<bar>"
| "fabs PInf = PInf"
| "fabs NInf = PInf"
| "fabs NaN = NaN"

fun fsqrt :: "fval \<Rightarrow> fval" where
  "fsqrt (Fin a) = (if a < 0 then NaN else Fin (sqrt a))"
| "fsqrt PInf = PInf"
| "fsqrt NInf = NaN"
| "fsqrt NaN = NaN"

fun flt :: "fval \<Rightarrow> fval \<Rightarrow> bool" where
  \<comment> \<open>\<open>x < y\<close>; every comparison with NaN is false\<close>
  "flt NaN y = False"
| "flt x NaN = False"
| "flt (Fin a) (Fin b) = (a < b)"
| "flt x NInf = False"
| "flt PInf y = False"
| "flt x PInf = True"
| "flt NInf y = True"

definition fgt :: "fval \<Rightarrow> fval \<Rightarrow> bool" where
  "fgt x y = flt y x"

text \<open>
  A cell of a frame is a number, a string (as read from a CSV or Excel file) or a boolean.
  A frame has an index (one integer label per row) and an ordered list of named columns.
  Column labels are strings; the labels of the source, which are Chinese, are given by
  their UTF-8 bytes.
\<close>

datatype cell = F fval | S string | B bool

record frame =
  index :: "int list"
  columns :: "(string \<times> cell list) list"

datatype error = KeyError | TypeError | ValueError | OverflowError

definition bind_err :: "error + 'a \<Rightarrow> ('a \<Rightarrow> error + 'b) \<Rightarrow> error + 'b" where
  "bind_err m f = (case m of Inl e \<Rightarrow> Inl e | Inr x \<Rightarrow> f x)"

definition c_current :: string where
  "c_current = [CHR 0xE7, CHR 0x94, CHR 0xB5, CHR 0xE6, CHR 0xB5, CHR 0x81]"

definition c_voltage :: string where
  "c_voltage = [CHR 0xE7, CHR 0x94, CHR 0xB5, CHR 0xE5, CHR 0x8E, CHR 0x8B]"

definition c_power :: string where
  "c_power = [CHR 0xE5, CHR 0x8A, CHR 0x9F, CHR 0xE7, CHR 0x8E, CHR 0x87]"

definition has_col :: "frame \<Rightarrow> string \<Rightarrow> bool" where
  \<comment> \<open>\<open>col in df.columns\<close>\<close>
  "has_col df c = (c \<in> set (map fst (columns df)))"

definition get_col :: "frame \<Rightarrow> string \<Rightarrow> cell list option" where
  "get_col df c = map_of (columns df) c"

definition set_col :: "frame \<Rightarrow> string \<Rightarrow> cell list \<Rightarrow> frame" where
  \<comment> \<open>\<open>df[c] = cs\<close>: an existing column keeps its place, a new one is appended\<close>
  "set_col df c cs =
     (if has_col df c
      then df\<lparr>columns := map (\<lambda>(k, v). if k = c then (k, cs) else (k, v)) (columns df)\<rparr>
      else df\<lparr>columns := columns df @ [(c, cs)]\<rparr>)"

definition rename :: "frame \<Rightarrow> string \<Rightarrow> string \<Rightarrow> frame" where
  \<comment> \<open>\<open>df.rename(columns={old: new}, inplace=True)\<close>\<close>
  "rename df old new =
     df\<lparr>columns := map (\<lambda>(k, v). (if k = old then new else k, v)) (columns df)\<rparr>"

fun cell_num :: "cell \<Rightarrow> fval option" where
  \<comment> \<open>the number a cell stands for in arithmetic; a string has none\<close>
  "cell_num (F v) = Some v"
| "cell_num (B b) = Some (Fin (if b then 1 else 0))"
| "cell_num (S s) = None"

definition col_values :: "frame \<Rightarrow> string \<Rightarrow> error + fval list" where
  \<comment> \<open>\<open>df[c]\<close> read as numbers: KeyError without the column, TypeError on a string cell\<close>
  "col_values df c =
     (case get_col df c of
        None \<Rightarrow> Inl KeyError
      | Some cs \<Rightarrow>
          (if list_all (\<lambda>x. cell_num x \<noteq> None) cs
           then Inr (map (\<lambda>x. the (cell_num x)) cs)
           else Inl TypeError))"

section \<open>validate_experiment_data\<close>

text \<open>
  The error messages of the source are fixed texts; each is a constructor here.
  \<open>pd.to_numeric(_, errors='coerce')\<close> parses strings; the parser is the parameter
  \<open>parse\<close>, and a string it rejects becomes NaN. A boolean counts as its number.
  On cells of these three kinds the conversion does not raise, so the \<open>except\<close> branch
  of the type loop has no counterpart. The function renames and assigns on the frame it is
  given; the model returns that frame as the call leaves it, next to the result.
\<close>

datatype issue =
    MissingColumns "string list"
  | NonNumericData string
  | NegativeCurrent
  | CurrentOverRange
  | NegativeVoltage
  | VoltageOverRange
  | PowerInconsistent

definition required_columns :: "string list" where
  "required_columns = [c_current, c_voltage, c_power]"

definition alt_columns :: "(string \<times> string list) list" where
  "alt_columns =
     [(c_current, [''current'', ''Current'', ''I'', ''i'']),
      (c_voltage, [''voltage'', ''Voltage'', ''V'', ''v'']),
      (c_power, [''power'', ''Power'', ''P'', ''p''])]"

fun rename_first :: "string \<Rightarrow> string list \<Rightarrow> frame \<Rightarrow> frame" where
  \<comment> \<open>the inner loop: the first alias that is present is renamed, then \<open>break\<close>\<close>
  "rename_first cn [] df = df"
| "rename_first cn (alt # alts) df =
     (if has_col df alt \<and> \<not> has_col df cn then rename df alt cn
      else rename_first cn alts df)"

definition normalize_names :: "frame \<Rightarrow> frame" where
  "normalize_names df = fold (\<lambda>(cn, alts). rename_first cn alts) alt_columns df"

fun coerce :: "(string \<Rightarrow> fval option) \<Rightarrow> cell \<Rightarrow> fval" where
  "coerce parse (F v) = v"
| "coerce parse (B b) = Fin (if b then 1 else 0)"
| "coerce parse (S s) = (case parse s of Some v \<Rightarrow> v | None \<Rightarrow> NaN)"

definition to_numeric :: "(string \<Rightarrow> fval option) \<Rightarrow> cell list \<Rightarrow> cell list" where
  "to_numeric parse cs = map (\<lambda>c. F (coerce parse c)) cs"

definition coerce_column ::
  "(string \<Rightarrow> fval option) \<Rightarrow> string \<Rightarrow> frame \<times> issue list \<Rightarrow> frame \<times> issue list" where
  \<comment> \<open>one round of the type loop: the column is overwritten by its coercion\<close>
  "coerce_column parse col st =
     (case st of (df, errors) \<Rightarrow>
       (case get_col df col of
          None \<Rightarrow> (df, errors)
        | Some cs \<Rightarrow>
            (let cs' = to_numeric parse cs
             in (set_col df col cs',
                 if list_ex (\<lambda>c. c = F NaN) cs' then errors @ [NonNumericData col]
                 else errors))))"

definition range_errors ::
  "frame \<Rightarrow> string \<Rightarrow> real \<Rightarrow> issue \<Rightarrow> issue \<Rightarrow> error + issue list" where
  \<comment> \<open>the range block of one column: negative values, then values above the bound\<close>
  "range_errors df col hi neg over =
     (if has_col df col then
        bind_err (col_values df col) (\<lambda>xs.
          Inr ((if list_ex (\<lambda>x. flt x (Fin 0)) xs then [neg] else []) @
               (if list_ex (\<lambda>x. fgt x (Fin hi)) xs then [over] else [])))
      else Inr [])"

definition power_errors :: "frame \<Rightarrow> error + issue list" where
  "power_errors df =
     (if list_all (has_col df) [c_current, c_voltage, c_power] then
        bind_err (col_values df c_current) (\<lambda>cur.
        bind_err (col_values df c_voltage) (\<lambda>vol.
        bind_err (col_values df c_power) (\<lambda>pow.
          (let calculated_power = map2 fmul cur vol;
               power_diff = map fabs (map2 fsub pow calculated_power)
           in Inr (if list_ex (\<lambda>(d, c). fgt d (fmul c (Fin (5 / 100))))
                        (zip power_diff calculated_power)
                   then [PowerInconsistent] else [])))))
      else Inr [])"

definition validate_experiment_data ::
  "(string \<Rightarrow> fval option) \<Rightarrow> frame \<Rightarrow> error + (frame \<times> bool \<times> issue list)" where
  \<comment> \<open>the frame returned is the argument object as the call leaves it\<close>
  "validate_experiment_data parse df0 =
     (let df1 = normalize_names df0;
          missing_columns = filter (\<lambda>c. \<not> has_col df1 c) required_columns;
          errors1 = (if missing_columns \<noteq> [] then [MissingColumns missing_columns] else []);
          (df2, errors2) = fold (coerce_column parse) required_columns (df1, errors1)
      in bind_err (range_errors df2 c_current 1000 NegativeCurrent CurrentOverRange) (\<lambda>e3.
         bind_err (range_errors df2 c_voltage 10000 NegativeVoltage VoltageOverRange) (\<lambda>e4.
         bind_err (power_errors df2) (\<lambda>e5.
           (let errors = errors2 @ e3 @ e4 @ e5
            in Inr (df2, errors = [], errors))))))"


section \<open>Column statistics as pandas computes them\<close>

text \<open>
  The reductions of pandas skip NaN cells. An empty selection has mean NaN, and the
  standard deviation (with Bessel's correction) of fewer than two values is NaN.
\<close>

definition dropna :: "fval list \<Rightarrow> fval list" where
  "dropna xs = filter (\<lambda>x. x \<noteq> NaN) xs"

definition fsum :: "fval list \<Rightarrow> fval" where
  "fsum xs = foldr fadd xs (Fin 0)"

definition mean :: "fval list \<Rightarrow> fval" where
  "mean xs = (let ys = dropna xs in
     if length ys = 0 then NaN else fdiv (fsum ys) (Fin (real (length ys))))"

definition std :: "fval list \<Rightarrow> fval" where
  "std xs =
     (let ys = dropna xs; n = length ys in
      if n \<le> 1 then NaN
      else (let avg = fdiv (fsum ys) (Fin (real n))
            in fsqrt (fdiv (fsum (map (\<lambda>y. fmul (fsub avg y) (fsub avg y)) ys))
                           (Fin (real (n - 1))))))"

definition fmax :: "fval list \<Rightarrow> fval" where
  "fmax xs = (case dropna xs of [] \<Rightarrow> NaN
              | y # ys \<Rightarrow> foldl (\<lambda>a b. if flt a b then b else a) y ys)"

definition fmin :: "fval list \<Rightarrow> fval" where
  "fmin xs = (case dropna xs of [] \<Rightarrow> NaN
              | y # ys \<Rightarrow> foldl (\<lambda>a b. if flt b a then b else a) y ys)"

fun insert_sorted :: "fval \<Rightarrow> fval list \<Rightarrow> fval list" where
  "insert_sorted x [] = [x]"
| "insert_sorted x (y # ys) = (if flt y x then y # insert_sorted x ys else x # y # ys)"

definition sort_values :: "fval list \<Rightarrow> fval list" where
  "sort_values xs = foldr insert_sorted xs []"

definition middle :: "fval list \<Rightarrow> fval" where
  \<comment> \<open>the median of a sorted list without NaN\<close>
  "middle ys =
     (let n = length ys in
      if n = 0 then NaN
      else if odd n then ys ! (n div 2)
      else fdiv (fadd (ys ! (n div 2 - 1)) (ys ! (n div 2))) (Fin 2))"

definition median :: "fval list \<Rightarrow> fval" where
  "median xs = middle (sort_values (dropna xs))"

definition quantile :: "real \<Rightarrow> fval list \<Rightarrow> fval" where
  \<comment> \<open>linear interpolation between the two nearest order statistics, as numpy writes it\<close>
  "quantile q xs =
     (let ys = sort_values (dropna xs); n = length ys in
      if n = 0 then NaN
      else (let pos = q * real (n - 1);
                lo = nat \<lfloor>pos\<rfloor>;
                hi = min (lo + 1) (n - 1);
                t = pos - real lo;
                a = ys ! lo; b = ys ! hi;
                diff = fsub b a
            in if 1 / 2 \<le> t then fsub b (fmul diff (Fin (1 - t)))
               else fadd a (fmul diff (Fin t))))"

section \<open>calculate_statistics\<close>

definition s_mean :: string where
  "s_mean = [CHR ''_'', CHR 0xE5, CHR 0xB9, CHR 0xB3, CHR 0xE5, CHR 0x9D, CHR 0x87,
             CHR 0xE5, CHR 0x80, CHR 0xBC]"

definition s_max :: string where
  "s_max = [CHR ''_'', CHR 0xE6, CHR 0x9C, CHR 0x80, CHR 0xE5, CHR 0xA4, CHR 0xA7,
            CHR 0xE5, CHR 0x80, CHR 0xBC]"

definition s_min :: string where
  "s_min = [CHR ''_'', CHR 0xE6, CHR 0x9C, CHR 0x80, CHR 0xE5, CHR 0xB0, CHR 0x8F,
            CHR 0xE5, CHR 0x80, CHR 0xBC]"

definition s_std :: string where
  "s_std = [CHR ''_'', CHR 0xE6, CHR 0xA0, CHR 0x87, CHR 0xE5, CHR 0x87, CHR 0x86,
            CHR 0xE5, CHR 0xB7, CHR 0xAE]"

definition s_median :: string where
  "s_median = [CHR ''_'', CHR 0xE4, CHR 0xB8, CHR 0xAD, CHR 0xE4, CHR 0xBD, CHR 0x8D,
               CHR 0xE6, CHR 0x95, CHR 0xB0]"

definition k_energy :: string where
  "k_energy = [CHR 0xE6, CHR 0x80, CHR 0xBB, CHR 0xE8, CHR 0x83, CHR 0xBD, CHR 0xE9,
               CHR 0x87, CHR 0x8F]"

definition k_power_factor :: string where
  "k_power_factor = [CHR 0xE5, CHR 0x8A, CHR 0x9F, CHR 0xE7, CHR 0x8E, CHR 0x87, CHR 0xE5,
                     CHR 0x9B, CHR 0xA0, CHR 0xE6, CHR 0x95, CHR 0xB0]"

definition column_stats :: "frame \<Rightarrow> string \<Rightarrow> error + (string \<times> fval) list" where
  \<comment> \<open>one round of the loop over the three numeric columns\<close>
  "column_stats df col =
     (if has_col df col then
        bind_err (col_values df col) (\<lambda>xs.
          Inr [(col @ s_mean, mean xs), (col @ s_max, fmax xs), (col @ s_min, fmin xs),
               (col @ s_std, std xs), (col @ s_median, median xs)])
      else Inr [])"

definition power_factor :: "frame \<Rightarrow> error + fval" where
  \<comment> \<open>the conditional expression: the quotient of the means, or 0 without both columns\<close>
  "power_factor df =
     (if has_col df c_current \<and> has_col df c_voltage then
        bind_err (col_values df c_power) (\<lambda>pow.
        bind_err (col_values df c_current) (\<lambda>cur.
        bind_err (col_values df c_voltage) (\<lambda>vol.
          Inr (fdiv (mean pow) (fmul (mean cur) (mean vol))))))
      else Inr (Fin 0))"

definition calculate_statistics :: "frame \<Rightarrow> error + (string \<times> fval) list" where
  \<comment> \<open>the dictionary, as the list of its entries in insertion order\<close>
  "calculate_statistics df =
     bind_err (column_stats df c_current) (\<lambda>s1.
     bind_err (column_stats df c_voltage) (\<lambda>s2.
     bind_err (column_stats df c_power) (\<lambda>s3.
       if has_col df c_power then
         bind_err (col_values df c_power) (\<lambda>pow.
         bind_err (power_factor df) (\<lambda>pf.
           Inr (s1 @ s2 @ s3 @
                [(k_energy, fmul (fsum (dropna pow)) (Fin (1 / 1000))), (k_power_factor, pf)])))
       else Inr (s1 @ s2 @ s3))))"

section \<open>detect_anomalies\<close>

definition c_anomaly :: string where
  "c_anomaly = [CHR 0xE5, CHR 0xBC, CHR 0x82, CHR 0xE5, CHR 0xB8, CHR 0xB8]"

definition detect_anomalies :: "frame \<Rightarrow> string \<Rightarrow> string \<Rightarrow> error + frame" where
  \<comment> \<open>works on \<open>df.copy()\<close>; the frame returned is that copy\<close>
  "detect_anomalies df column method =
     (if method = ''iqr'' then
        bind_err (col_values df column) (\<lambda>xs.
          (let Q1 = quantile (1 / 4) xs;
               Q3 = quantile (3 / 4) xs;
               IQR = fsub Q3 Q1;
               lower_bound = fsub Q1 (fmul (Fin (3 / 2)) IQR);
               upper_bound = fadd Q3 (fmul (Fin (3 / 2)) IQR)
           in Inr (set_col df c_anomaly
                     (map (\<lambda>x. B (flt x lower_bound \<or> fgt x upper_bound)) xs))))
      else if method = ''zscore'' then
        bind_err (col_values df column) (\<lambda>xs.
          (let m = mean xs;
               sd = std xs;
               z_scores = map (\<lambda>x. fabs (fdiv (fsub x m) sd)) xs
           in Inr (set_col df c_anomaly (map (\<lambda>z. B (fgt z (Fin 3))) z_scores))))
      else Inr df)"

section \<open>filter_data\<close>

text \<open>
  The window functions of pandas read an infinite value as missing. A fixed window of
  size \<open>w\<close>, centred, covers at row \<open>i\<close> the rows from \<open>i + 1 + offset - w\<close> up to
  \<open>i + offset\<close> with \<open>offset = (w - 1) div 2\<close>, cut to the rows that exist; the result
  is missing unless the window holds \<open>w\<close> observed values (\<open>min_periods\<close> defaults to the
  window size). pandas rejects a negative window, and a span below 1, with ValueError.
  The last statement of the function fills the column through
  \<open>df[name].fillna(df[column], inplace=True)\<close>; it is modelled as changing the frame, as
  pandas before version 3 does for a column that was just assigned.
\<close>

definition prep :: "fval \<Rightarrow> real option" where
  "prep x = (case x of Fin a \<Rightarrow> Some a | _ \<Rightarrow> None)"

definition unprep :: "real option \<Rightarrow> fval" where
  "unprep x = (case x of Some a \<Rightarrow> Fin a | None \<Rightarrow> NaN)"

definition clip :: "int \<Rightarrow> nat \<Rightarrow> nat" where
  "clip x n = (if x < 0 then 0 else if int n < x then n else nat x)"

definition window_at :: "int \<Rightarrow> 'a list \<Rightarrow> nat \<Rightarrow> 'a list" where
  "window_at w xs i =
     (let n = length xs;
          offset = (w - 1) div 2;
          e = clip (int i + 1 + offset) n;
          s = clip (int i + 1 + offset - w) n
      in take (e - s) (drop s xs))"

definition observed :: "real option list \<Rightarrow> real list" where
  "observed win = map the (filter (\<lambda>x. x \<noteq> None) win)"

definition rolling :: "(real list \<Rightarrow> real) \<Rightarrow> int \<Rightarrow> real option list \<Rightarrow> real option list" where
  "rolling agg w xs =
     map (\<lambda>i. let obs = observed (window_at w xs i)
              in if w \<le> int (length obs) \<and> 0 < length obs then Some (agg obs) else None)
         [0..<length xs]"

definition mean_of :: "real list \<Rightarrow> real" where
  "mean_of obs = sum_list obs / real (length obs)"

definition median_of :: "real list \<Rightarrow> real" where
  "median_of obs =
     (let ys = sort obs; n = length ys in
      if odd n then ys ! (n div 2) else (ys ! (n div 2 - 1) + ys ! (n div 2)) / 2)"

fun ewm_loop :: "real \<Rightarrow> real option \<Rightarrow> real \<Rightarrow> real option list \<Rightarrow> real option list" where
  \<comment> \<open>the loop of the exponentially weighted mean with \<open>adjust=False\<close>: the running
      average, the weight of the past, the values still to come\<close>
  "ewm_loop alpha weighted old_wt [] = []"
| "ewm_loop alpha None old_wt (cur # rest) = cur # ewm_loop alpha cur old_wt rest"
| "ewm_loop alpha (Some avg) old_wt (None # rest) =
     Some avg # ewm_loop alpha (Some avg) (old_wt * (1 - alpha)) rest"
| "ewm_loop alpha (Some avg) old_wt (Some cur # rest) =
     (let old = old_wt * (1 - alpha);
          avg' = (if avg \<noteq> cur then (old * avg + alpha * cur) / (old + alpha) else avg)
      in Some avg' # ewm_loop alpha (Some avg') 1 rest)"

definition ewm_mean :: "int \<Rightarrow> real option list \<Rightarrow> real option list" where
  \<comment> \<open>\<open>ewm(span=w, adjust=False).mean()\<close>, for \<open>w \<ge> 1\<close>\<close>
  "ewm_mean w xs =
     (case xs of [] \<Rightarrow> []
      | x # rest \<Rightarrow> x # ewm_loop (2 / (real_of_int w + 1)) x 1 rest)"

definition filtered_name :: "string \<Rightarrow> string" where
  "filtered_name column = column @ ''_filtered''"

definition smooth :: "string \<Rightarrow> int \<Rightarrow> fval list \<Rightarrow> error + fval list" where
  \<comment> \<open>the series assigned to the new column by a known method\<close>
  "smooth method w xs =
     (if method = ''moving_average'' then
        (if w < 0 then Inl ValueError
         else Inr (map unprep (rolling mean_of w (map prep xs))))
      else if method = ''exponential'' then
        (if w < 1 then Inl ValueError
         else Inr (map unprep (ewm_mean w (map prep xs))))
      else
        (if w < 0 then Inl ValueError
         else Inr (map unprep (rolling median_of w (map prep xs)))))"

definition fill :: "cell \<Rightarrow> cell \<Rightarrow> cell" where
  \<comment> \<open>\<open>fillna\<close> at one row; a boolean written into the column is written as its number\<close>
  "fill f x = (if f = F NaN then (case cell_num x of Some v \<Rightarrow> F v | None \<Rightarrow> x) else f)"

definition fillna :: "frame \<Rightarrow> string \<Rightarrow> error + frame" where
  \<comment> \<open>the last statement: the missing rows of the filtered column take the raw value\<close>
  "fillna df column =
     (case get_col df (filtered_name column) of
        None \<Rightarrow> Inl KeyError
      | Some fs \<Rightarrow>
          (case get_col df column of
             None \<Rightarrow> Inl KeyError
           | Some raw \<Rightarrow> Inr (set_col df (filtered_name column) (map2 fill fs raw))))"

definition filter_data :: "frame \<Rightarrow> string \<Rightarrow> string \<Rightarrow> int \<Rightarrow> error + frame" where
  \<comment> \<open>works on \<open>df.copy()\<close>; the frame returned is that copy\<close>
  "filter_data df column method window_size =
     (if method \<in> set [''moving_average'', ''exponential'', ''median''] then
        bind_err (col_values df column) (\<lambda>xs.
        bind_err (smooth method window_size xs) (\<lambda>ys.
          fillna (set_col df (filtered_name column) (map F ys)) column))
      else fillna df column)"

section \<open>prepare_for_database\<close>

text \<open>
  The builtins \<open>float\<close>, \<open>int\<close> and \<open>str\<close> of Python and the clock are parameters:
  the two parsers return \<open>None\<close> where Python raises ValueError, \<open>str_of\<close> prints a
  cell that is not a string, and \<open>now k\<close> is what \<open>datetime.now()\<close> returns in the round
  of the loop for the row at position \<open>k\<close>. Index labels are integers, and every column
  of a frame has one cell per index label.
\<close>

record builtins =
  float_of_string :: "string \<Rightarrow> fval option"
  int_of_string :: "string \<Rightarrow> int option"
  str_of :: "cell \<Rightarrow> string"
  now :: "nat \<Rightarrow> int"

datatype stamp = FromRow cell | Clock int

record db_record =
  experiment_id :: string
  sequence_number :: int
  current :: fval
  voltage :: fval
  power_val :: fval
  device_address :: int
  device_type :: string
  timestamp :: stamp
  temperature :: "fval option"
  humidity :: "fval option"

definition c_device_address :: string where
  "c_device_address = [CHR 0xE8, CHR 0xAE, CHR 0xBE, CHR 0xE5, CHR 0xA4, CHR 0x87, CHR 0xE5,
                       CHR 0x9C, CHR 0xB0, CHR 0xE5, CHR 0x9D, CHR 0x80]"

definition c_device_type :: string where
  "c_device_type = [CHR 0xE8, CHR 0xAE, CHR 0xBE, CHR 0xE5, CHR 0xA4, CHR 0x87, CHR 0xE7,
                    CHR 0xB1, CHR 0xBB, CHR 0xE5, CHR 0x9E, CHR 0x8B]"

definition c_timestamp :: string where
  "c_timestamp = [CHR 0xE6, CHR 0x97, CHR 0xB6, CHR 0xE9, CHR 0x97, CHR 0xB4, CHR 0xE6,
                  CHR 0x88, CHR 0xB3]"

definition c_temperature :: string where
  "c_temperature = [CHR 0xE6, CHR 0xB8, CHR 0xA9, CHR 0xE5, CHR 0xBA, CHR 0xA6]"

definition c_humidity :: string where
  "c_humidity = [CHR 0xE6, CHR 0xB9, CHR 0xBF, CHR 0xE5, CHR 0xBA, CHR 0xA6]"

definition unknown_type :: string where
  "unknown_type = [CHR 0xE6, CHR 0x9C, CHR 0xAA, CHR 0xE7, CHR 0x9F, CHR 0xA5]"

definition row_get :: "frame \<Rightarrow> nat \<Rightarrow> string \<Rightarrow> cell option" where
  \<comment> \<open>\<open>row.get(key)\<close> for the row at position \<open>k\<close>: \<open>None\<close> when the row has no such field\<close>
  "row_get df k key = (case get_col df key of None \<Rightarrow> None | Some cs \<Rightarrow> Some (cs ! k))"

definition py_float :: "builtins \<Rightarrow> cell \<Rightarrow> error + fval" where
  "py_float env c =
     (case c of
        F v \<Rightarrow> Inr v
      | B b \<Rightarrow> Inr (Fin (if b then 1 else 0))
      | S s \<Rightarrow> (case float_of_string env s of Some v \<Rightarrow> Inr v | None \<Rightarrow> Inl ValueError))"

definition py_int :: "builtins \<Rightarrow> cell \<Rightarrow> error + int" where
  "py_int env c =
     (case c of
        F (Fin a) \<Rightarrow> Inr (if 0 \<le> a then \<lfloor>a\<rfloor> else \<lceil>a\<rceil>)
      | F NaN \<Rightarrow> Inl ValueError
      | F _ \<Rightarrow> Inl OverflowError
      | B b \<Rightarrow> Inr (if b then 1 else 0)
      | S s \<Rightarrow> (case int_of_string env s of Some i \<Rightarrow> Inr i | None \<Rightarrow> Inl ValueError))"

definition py_str :: "builtins \<Rightarrow> cell \<Rightarrow> string" where
  "py_str env c = (case c of S s \<Rightarrow> s | _ \<Rightarrow> str_of env c)"

definition get_float :: "builtins \<Rightarrow> frame \<Rightarrow> nat \<Rightarrow> string \<Rightarrow> error + fval" where
  \<comment> \<open>\<open>float(row.get(key, 0))\<close>\<close>
  "get_float env df k key =
     (case row_get df k key of None \<Rightarrow> Inr (Fin 0) | Some c \<Rightarrow> py_float env c)"

definition get_optional :: "builtins \<Rightarrow> frame \<Rightarrow> nat \<Rightarrow> string \<Rightarrow> error + fval option" where
  \<comment> \<open>\<open>if key in row: record[..] = float(row[key])\<close>\<close>
  "get_optional env df k key =
     (case row_get df k key of
        None \<Rightarrow> Inr None
      | Some c \<Rightarrow> bind_err (py_float env c) (\<lambda>v. Inr (Some v)))"

definition make_record :: "builtins \<Rightarrow> frame \<Rightarrow> string \<Rightarrow> nat \<Rightarrow> error + db_record" where
  \<comment> \<open>the body of the loop for the row at position \<open>k\<close>, whose index label is \<open>idx\<close>\<close>
  "make_record env df eid k =
     (let idx = index df ! k in
      bind_err (get_float env df k c_current) (\<lambda>cur.
      bind_err (get_float env df k c_voltage) (\<lambda>vol.
      bind_err (get_float env df k c_power) (\<lambda>pow.
      bind_err (case row_get df k c_device_address of
                  None \<Rightarrow> Inr 1 | Some c \<Rightarrow> py_int env c) (\<lambda>addr.
      bind_err (get_optional env df k c_temperature) (\<lambda>temp.
      bind_err (get_optional env df k c_humidity) (\<lambda>hum.
        Inr \<lparr>experiment_id = eid,
             sequence_number = idx + 1,
             current = cur,
             voltage = vol,
             power_val = pow,
             device_address = addr,
             device_type = (case row_get df k c_device_type of
                              None \<Rightarrow> unknown_type | Some c \<Rightarrow> py_str env c),
             timestamp = (case row_get df k c_timestamp of
                            None \<Rightarrow> Clock (now env k) | Some c \<Rightarrow> FromRow c),
             temperature = temp,
             humidity = hum\<rparr>)))))))"

fun build_records :: "builtins \<Rightarrow> frame \<Rightarrow> string \<Rightarrow> nat list \<Rightarrow> error + db_record list" where
  \<comment> \<open>the loop over the rows; the first exception ends it\<close>
  "build_records env df eid [] = Inr []"
| "build_records env df eid (k # ks) =
     bind_err (make_record env df eid k) (\<lambda>r.
     bind_err (build_records env df eid ks) (\<lambda>rs. Inr (r # rs)))"

definition prepare_for_database :: "builtins \<Rightarrow> frame \<Rightarrow> string \<Rightarrow> error + db_record list" where
  "prepare_for_database env df eid = build_records env df eid [0..<length (index df)]"

section \<open>Frames as shared objects\<close>

text \<open>
  A caller hands a frame over by reference. The heap is the list of the frames that exist,
  a reference is a position in it. \<open>validate_experiment_data\<close> renames and assigns on the
  object it was given; \<open>detect_anomalies\<close> and \<open>filter_data\<close> begin with
  \<open>df = df.copy()\<close>, so that all they write goes to a new object, which they return.
\<close>

type_synonym heap = "frame list"

definition validate_call ::
  "(string \<Rightarrow> fval option) \<Rightarrow> heap \<Rightarrow> nat \<Rightarrow> error + (heap \<times> bool \<times> issue list)" where
  "validate_call parse h a =
     bind_err (validate_experiment_data parse (h ! a)) (\<lambda>(df', valid, errors).
       Inr (h[a := df'], valid, errors))"

definition detect_call :: "heap \<Rightarrow> nat \<Rightarrow> string \<Rightarrow> string \<Rightarrow> error + (heap \<times> nat)" where
  "detect_call h a column method =
     (let h1 = h @ [h ! a]; b = length h in
      bind_err (detect_anomalies (h1 ! b) column method) (\<lambda>df'. Inr (h1[b := df'], b)))"

definition filter_call ::
  "heap \<Rightarrow> nat \<Rightarrow> string \<Rightarrow> string \<Rightarrow> int \<Rightarrow> error + (heap \<times> nat)" where
  "filter_call h a column method window_size =
     (let h1 = h @ [h ! a]; b = length h in
      bind_err (filter_data (h1 ! b) column method window_size) (\<lambda>df'.
        Inr (h1[b := df'], b)))"

section \<open>Auxiliary definitions and example tables\<close>

text \<open>
  The definitions of this section are not part of the program. They name the pieces of
  \<open>validate_experiment_data\<close> that the proofs speak about, state the conditions of the
  properties, and give the concrete tables on which the properties are exercised.
\<close>

definition nonnum :: "(string \<Rightarrow> fval option) \<Rightarrow> frame \<Rightarrow> string \<Rightarrow> issue list" where
  \<comment> \<open>what the type loop reports for one column\<close>
  "nonnum parse df c =
     (case get_col df c of
        None \<Rightarrow> []
      | Some cs \<Rightarrow>
          if list_ex (\<lambda>x. x = F NaN) (to_numeric parse cs) then [NonNumericData c] else [])"

definition ex_parse :: "string \<Rightarrow> fval option" where
  "ex_parse s = (if s = ''1'' then Some (Fin 1) else None)"

definition ex_upload :: frame where
  \<comment> \<open>an uploaded table with alias headers, one numeric string and a column of notes\<close>
  "ex_upload = \<lparr>index = [0, 1],
     columns = [(''current'', [S ''1'', F (Fin 2)]),
                (''V'', [F (Fin 10), F (Fin 20)]),
                (''power'', [F (Fin 10), F (Fin 41)]),
                (''note'', [S ''a'', S ''b''])]\<rparr>"

definition settled :: "frame \<Rightarrow> bool" where
  \<comment> \<open>the renaming loop has nothing left to do\<close>
  "settled df = (\<forall>(cn, alts) \<in> set alt_columns.
                   has_col df cn \<or> (\<forall>a \<in> set alts. \<not> has_col df a))"

definition coerced :: "(string \<Rightarrow> fval option) \<Rightarrow> frame \<Rightarrow> issue list \<Rightarrow> frame" where
  \<comment> \<open>the frame after the type loop\<close>
  "coerced parse df es = fst (fold (coerce_column parse) required_columns (df, es))"

definition missing_errors :: "frame \<Rightarrow> issue list" where
  \<comment> \<open>what the check of the required columns reports\<close>
  "missing_errors df =
     (if filter (\<lambda>c. \<not> has_col df c) required_columns \<noteq> []
      then [MissingColumns (filter (\<lambda>c. \<not> has_col df c) required_columns)] else [])"

definition known_names :: "string list" where
  \<comment> \<open>the canonical names and their aliases\<close>
  "known_names = concat (map (\<lambda>(cn, alts). cn # alts) alt_columns)"

definition ex_validated :: frame where
  \<comment> \<open>\<open>ex_upload\<close> as a call of \<open>validate_experiment_data\<close> leaves it\<close>
  "ex_validated = \<lparr>index = [0, 1],
     columns = [(c_current, [F (Fin 1), F (Fin 2)]),
                (c_voltage, [F (Fin 10), F (Fin 20)]),
                (c_power, [F (Fin 10), F (Fin 41)]),
                (''note'', [S ''a'', S ''b''])]\<rparr>"

definition stat_entry :: "frame \<Rightarrow> string \<Rightarrow> error + fval option" where
  \<comment> \<open>\<open>calculate_statistics(df).get(key)\<close>\<close>
  "stat_entry df key = bind_err (calculate_statistics df) (\<lambda>stats. Inr (map_of stats key))"

definition ex_idle :: frame where
  \<comment> \<open>two rows of a device that is shut off: no current, no power\<close>
  "ex_idle = \<lparr>index = [0, 1],
     columns = [(c_current, [F (Fin 0), F (Fin 0)]),
                (c_voltage, [F (Fin 20), F (Fin 20)]),
                (c_power, [F (Fin 0), F (Fin 0)])]\<rparr>"



definition refill :: "fval list \<Rightarrow> fval list \<Rightarrow> fval list" where
  \<comment> \<open>the filtered series after \<open>fillna\<close>, read as numbers\<close>
  "refill ys xs = map2 (\<lambda>y x. if y = NaN then x else y) ys xs"



definition fits :: "int \<Rightarrow> nat \<Rightarrow> nat \<Rightarrow> bool" where
  \<comment> \<open>the window of size \<open>w\<close> centred at row \<open>i\<close> lies inside a series of \<open>n\<close> rows\<close>
  "fits w n i =
     (0 \<le> int i + 1 + (w - 1) div 2 - w \<and> int i + 1 + (w - 1) div 2 \<le> int n)"

definition centred :: "int \<Rightarrow> 'a list \<Rightarrow> nat \<Rightarrow> 'a list" where
  \<comment> \<open>the \<open>w\<close> rows from \<open>i + 1 + (w - 1) div 2 - w\<close> on\<close>
  "centred w xs i = take (nat w) (drop (nat (int i + 1 + (w - 1) div 2 - w)) xs)"

definition ex_series :: frame where
  "ex_series = \<lparr>index = [0, 1, 2, 3, 4],
     columns = [(''power'', [F (Fin 1), F (Fin 2), F (Fin 3), F (Fin 4), F (Fin 5)])]\<rparr>"

definition ex_spikes :: frame where
  "ex_spikes = \<lparr>index = [0, 1, 2, 3, 4],
     columns = [(''power'', [F (Fin 1), F (Fin 5), F (Fin 3), F (Fin 10), F NaN])]\<rparr>"

definition float_ok :: "builtins \<Rightarrow> cell \<Rightarrow> bool" where
  \<comment> \<open>\<open>float(c)\<close> does not raise\<close>
  "float_ok env c = (case c of S s \<Rightarrow> float_of_string env s \<noteq> None | _ \<Rightarrow> True)"

definition int_ok :: "builtins \<Rightarrow> cell \<Rightarrow> bool" where
  \<comment> \<open>\<open>int(c)\<close> does not raise\<close>
  "int_ok env c =
     (case c of S s \<Rightarrow> int_of_string env s \<noteq> None
      | F v \<Rightarrow> (case v of Fin a \<Rightarrow> True | _ \<Rightarrow> False)
      | B b \<Rightarrow> True)"

definition convertible :: "builtins \<Rightarrow> frame \<Rightarrow> bool" where
  \<comment> \<open>no cell that the loop converts makes \<open>float\<close> or \<open>int\<close> raise\<close>
  "convertible env df =
     ((\<forall>key \<in> set [c_current, c_voltage, c_power, c_temperature, c_humidity].
         \<forall>k < length (index df). \<forall>c. row_get df k key = Some c \<longrightarrow> float_ok env c) \<and>
      (\<forall>k < length (index df). \<forall>c. row_get df k c_device_address = Some c \<longrightarrow> int_ok env c))"

definition ex_env :: builtins where
  "ex_env = \<lparr>float_of_string = ex_parse, int_of_string = (\<lambda>s. None),
             str_of = (\<lambda>c. ''?''), now = (\<lambda>k. 1000 + int k)\<rparr>"

definition ex_sorted :: frame where
  \<comment> \<open>two rows in descending order of current, as \<open>sort_values\<close> leaves them\<close>
  "ex_sorted = \<lparr>index = [1, 0], columns = [(c_current, [F (Fin 2), F (Fin 1)])]\<rparr>"

definition ex_sorted_records :: "db_record list" where
  "ex_sorted_records =
     [\<lparr>experiment_id = ''E1'', sequence_number = 2, current = Fin 2, voltage = Fin 0,
       power_val = Fin 0, device_address = 1, device_type = unknown_type,
       timestamp = Clock 1000, temperature = None, humidity = None\<rparr>,
      \<lparr>experiment_id = ''E1'', sequence_number = 1, current = Fin 1, voltage = Fin 0,
       power_val = Fin 0, device_address = 1, device_type = unknown_type,
       timestamp = Clock 1001, temperature = None, humidity = None\<rparr>]"

section \<open>Properties of validate_experiment_data\<close>

lemma has_col_get: "has_col df c \<longleftrightarrow> get_col df c \<noteq> None"
  by (auto simp: has_col_def get_col_def map_of_eq_None_iff image_iff)

lemma get_col_set_col:
  "get_col (set_col df c cs) d = (if d = c then Some cs else get_col df d)"
proof (cases "has_col df c")
  case True
  have "map_of (map (\<lambda>(k, v). if k = c then (k, cs) else (k, v)) xs) d =
        (if d = c then (if c \<in> fst ` set xs then Some cs else None) else map_of xs d)" for xs
    by (induction xs) (auto simp: image_iff, force+)
  with True show ?thesis
    by (simp add: set_col_def get_col_def has_col_def)
next
  case False
  then have "map_of (columns df) c = None"
    by (simp add: has_col_def map_of_eq_None_iff)
  with False show ?thesis
    by (auto simp: set_col_def get_col_def map_add_def split: option.splits)
qed

lemma to_numeric_idem: "to_numeric parse (to_numeric parse cs) = to_numeric parse cs"
  by (simp add: to_numeric_def)

lemma coerce_column_get:
  "get_col (fst (coerce_column parse c (df, es))) d =
     (if d = c then map_option (to_numeric parse) (get_col df c) else get_col df d)"
  by (auto simp: coerce_column_def Let_def get_col_set_col split: option.splits)

lemma coerce_column_errs:
  "snd (coerce_column parse c (df, es)) = es @ nonnum parse df c"
  by (auto simp: coerce_column_def Let_def nonnum_def split: option.splits)

lemma fold_coerce_get:
  "get_col (fst (fold (coerce_column parse) cols (df, es))) d =
     (if d \<in> set cols then map_option (to_numeric parse) (get_col df d) else get_col df d)"
proof (induction cols arbitrary: df es)
  case Nil
  show ?case by simp
next
  case (Cons c cols)
  obtain df' es' where st: "coerce_column parse c (df, es) = (df', es')"
    by (cases "coerce_column parse c (df, es)")
  have g: "get_col df' d = (if d = c then map_option (to_numeric parse) (get_col df c) else get_col df d)" for d
    using coerce_column_get [of parse c df es d] st by simp
  show ?case
    using Cons.IH [of df' es'] st g
    by (auto simp: to_numeric_idem option.map_comp comp_def split: option.splits)
qed

lemma nonnum_cong:
  "get_col df' c = map_option (to_numeric parse) (get_col df c) \<or> get_col df' c = get_col df c
   \<Longrightarrow> nonnum parse df' c = nonnum parse df c"
  by (cases "get_col df c") (auto simp: nonnum_def to_numeric_idem)

lemma fold_coerce_errs:
  "snd (fold (coerce_column parse) cols (df, es)) = es @ concat (map (nonnum parse df) cols)"
proof (induction cols arbitrary: df es)
  case Nil
  show ?case by simp
next
  case (Cons c cols)
  obtain df' es' where st: "coerce_column parse c (df, es) = (df', es')"
    by (cases "coerce_column parse c (df, es)")
  have g: "get_col df' d = (if d = c then map_option (to_numeric parse) (get_col df c) else get_col df d)" for d
    using coerce_column_get [of parse c df es d] st by simp
  have e: "es' = es @ nonnum parse df c"
    using coerce_column_errs [of parse c df es] st by simp
  have "nonnum parse df' d = nonnum parse df d" for d
    by (rule nonnum_cong) (simp add: g)
  then show ?case
    using Cons.IH [of df' es'] st e by simp
qed

lemma names_distinct:
  "c_current \<noteq> c_voltage" "c_current \<noteq> c_power" "c_voltage \<noteq> c_power"
  "c_voltage \<noteq> c_current" "c_power \<noteq> c_current" "c_power \<noteq> c_voltage"
  by (simp_all add: c_current_def c_voltage_def c_power_def)

lemma validate_unfold:
  "validate_experiment_data parse df0 =
     (let df1 = normalize_names df0;
          st = fold (coerce_column parse) required_columns
                 (df1, if filter (\<lambda>c. \<not> has_col df1 c) required_columns \<noteq> []
                       then [MissingColumns (filter (\<lambda>c. \<not> has_col df1 c) required_columns)] else []);
          df2 = fst st
      in bind_err (range_errors df2 c_current 1000 NegativeCurrent CurrentOverRange) (\<lambda>e3.
         bind_err (range_errors df2 c_voltage 10000 NegativeVoltage VoltageOverRange) (\<lambda>e4.
         bind_err (power_errors df2) (\<lambda>e5.
           Inr (df2, snd st @ e3 @ e4 @ e5 = [], snd st @ e3 @ e4 @ e5)))))"
  by (simp add: validate_experiment_data_def Let_def split: prod.splits)

lemma col_values_numeric:
  "get_col df c = Some (to_numeric parse cs) \<Longrightarrow> col_values df c = Inr (map (coerce parse) cs)"
  by (simp add: col_values_def to_numeric_def list_all_iff comp_def)


lemma ex_upload_names:
  "normalize_names ex_upload = \<lparr>index = [0, 1],
     columns = [(c_current, [S ''1'', F (Fin 2)]),
                (c_voltage, [F (Fin 10), F (Fin 20)]),
                (c_power, [F (Fin 10), F (Fin 41)]),
                (''note'', [S ''a'', S ''b''])]\<rparr>"
  by (simp add: normalize_names_def alt_columns_def ex_upload_def has_col_def rename_def
      c_current_def c_voltage_def c_power_def)


lemma has_col_rename:
  "has_col (rename df old new) c \<longleftrightarrow> (c = new \<and> has_col df old) \<or> (c \<noteq> old \<and> has_col df c)"
proof -
  have "map fst (map (\<lambda>(k, v). (if k = old then new else k, v)) xs) =
        map (\<lambda>k. if k = old then new else k) (map fst xs)"
    for xs :: "(string \<times> cell list) list"
    by (induction xs) auto
  then show ?thesis
    by (auto simp: has_col_def rename_def split: if_splits)
qed

lemma rename_first_cases:
  "(rename_first cn alts df = df \<and> (has_col df cn \<or> (\<forall>a \<in> set alts. \<not> has_col df a))) \<or>
   (\<exists>a \<in> set alts. has_col df a \<and> \<not> has_col df cn \<and> rename_first cn alts df = rename df a cn)"
  by (induction alts) auto

lemma rename_first_fixed:
  "has_col df cn \<or> (\<forall>a \<in> set alts. \<not> has_col df a) \<Longrightarrow> rename_first cn alts df = df"
  by (induction alts) auto

lemma rename_first_settles:
  "has_col (rename_first cn alts df) cn \<or> (\<forall>a \<in> set alts. \<not> has_col (rename_first cn alts df) a)"
  using rename_first_cases [of cn alts df] by (auto simp: has_col_rename)

lemma rename_first_other:
  "c \<noteq> cn \<Longrightarrow> c \<notin> set alts \<Longrightarrow> has_col (rename_first cn alts df) c = has_col df c"
  using rename_first_cases [of cn alts df] by (auto simp: has_col_rename)

lemma settled_fixed: "settled df \<Longrightarrow> normalize_names df = df"
  by (simp add: settled_def normalize_names_def alt_columns_def rename_first_fixed
      del: rename_first.simps)

lemma settled_normalize: "settled (normalize_names df)"
proof -
  let ?a1 = "[''current'', ''Current'', ''I'', ''i'']"
  let ?a2 = "[''voltage'', ''Voltage'', ''V'', ''v'']"
  let ?a3 = "[''power'', ''Power'', ''P'', ''p'']"
  define d1 where "d1 = rename_first c_current ?a1 df"
  define d2 where "d2 = rename_first c_voltage ?a2 d1"
  define d3 where "d3 = rename_first c_power ?a3 d2"
  have n: "normalize_names df = d3"
    by (simp add: normalize_names_def alt_columns_def d1_def d2_def d3_def
        del: rename_first.simps)
  have p1: "has_col d1 c_current \<or> (\<forall>a \<in> set ?a1. \<not> has_col d1 a)"
    unfolding d1_def by (rule rename_first_settles)
  have p2: "has_col d2 c_voltage \<or> (\<forall>a \<in> set ?a2. \<not> has_col d2 a)"
    unfolding d2_def by (rule rename_first_settles)
  have p3: "has_col d3 c_power \<or> (\<forall>a \<in> set ?a3. \<not> has_col d3 a)"
    unfolding d3_def by (rule rename_first_settles)
  have k12: "has_col d2 c = has_col d1 c" if "c \<in> set (c_current # ?a1)" for c
    unfolding d2_def using that
    by (intro rename_first_other) (auto simp: c_current_def c_voltage_def)
  have k23: "has_col d3 c = has_col d2 c" if "c \<in> set (c_current # ?a1 @ c_voltage # ?a2)" for c
    unfolding d3_def using that
    by (intro rename_first_other) (auto simp: c_current_def c_voltage_def c_power_def)
  have q1: "has_col d3 c_current \<or> (\<forall>a \<in> set ?a1. \<not> has_col d3 a)"
    using p1 k12 k23 by simp
  have q2: "has_col d3 c_voltage \<or> (\<forall>a \<in> set ?a2. \<not> has_col d3 a)"
    using p2 k23 by simp
  show ?thesis
    unfolding n settled_def alt_columns_def using q1 q2 p3 by simp
qed

lemma settled_cong: "(\<And>c. has_col df' c = has_col df c) \<Longrightarrow> settled df' = settled df"
  by (simp add: settled_def)

lemma col_values_cong: "get_col df' c = get_col df c \<Longrightarrow> col_values df' c = col_values df c"
  by (simp add: col_values_def)

lemma range_errors_cong:
  "get_col df' c = get_col df c \<Longrightarrow> range_errors df' c hi neg over = range_errors df c hi neg over"
  using col_values_cong [of df' c df] by (simp add: range_errors_def has_col_get)

lemma power_errors_cong:
  "(\<And>c. get_col df' c = get_col df c) \<Longrightarrow> power_errors df' = power_errors df"
  using col_values_cong [of df' c_current df] col_values_cong [of df' c_voltage df]
    col_values_cong [of df' c_power df]
  by (simp add: power_errors_def has_col_get)

lemma range_errors_total:
  "get_col df c = map_option (to_numeric parse) r \<Longrightarrow> \<exists>es. range_errors df c hi neg over = Inr es"
  by (cases r) (simp_all add: range_errors_def has_col_get col_values_numeric bind_err_def)

lemma power_errors_total:
  assumes "get_col df c_current = map_option (to_numeric parse) r1"
    and "get_col df c_voltage = map_option (to_numeric parse) r2"
    and "get_col df c_power = map_option (to_numeric parse) r3"
  shows "\<exists>es. power_errors df = Inr es"
  using assms
  by (cases r1; cases r2; cases r3)
     (simp_all add: power_errors_def has_col_get col_values_numeric bind_err_def Let_def)

lemma coerced_get:
  "get_col (coerced parse df es) d =
     (if d \<in> set required_columns then map_option (to_numeric parse) (get_col df d)
      else get_col df d)"
  unfolding coerced_def by (rule fold_coerce_get)

lemma coerced_has: "has_col (coerced parse df es) c = has_col df c"
  by (simp add: has_col_get coerced_get)

lemma coerced_again: "get_col (coerced parse (coerced parse df es) es') d = get_col (coerced parse df es) d"
  by (cases "get_col df d") (simp_all add: coerced_get to_numeric_idem)

lemma missing_errors_cong:
  "(\<And>c. has_col df' c = has_col df c) \<Longrightarrow> missing_errors df' = missing_errors df"
  by (simp add: missing_errors_def)

lemma validate_shape:
  "validate_experiment_data parse df0 =
     (let df1 = normalize_names df0;
          df2 = coerced parse df1 (missing_errors df1);
          errors2 = missing_errors df1 @ concat (map (nonnum parse df1) required_columns)
      in bind_err (range_errors df2 c_current 1000 NegativeCurrent CurrentOverRange) (\<lambda>e3.
         bind_err (range_errors df2 c_voltage 10000 NegativeVoltage VoltageOverRange) (\<lambda>e4.
         bind_err (power_errors df2) (\<lambda>e5.
           Inr (df2, errors2 @ e3 @ e4 @ e5 = [], errors2 @ e3 @ e4 @ e5)))))"
  unfolding validate_unfold Let_def fold_coerce_errs coerced_def missing_errors_def
  by simp

lemma validate_total_shape:
  "\<exists>e3 e4 e5.
     range_errors (coerced parse (normalize_names df0) es) c_current 1000 NegativeCurrent CurrentOverRange = Inr e3 \<and>
     range_errors (coerced parse (normalize_names df0) es) c_voltage 10000 NegativeVoltage VoltageOverRange = Inr e4 \<and>
     power_errors (coerced parse (normalize_names df0) es) = Inr e5"
proof -
  let ?d = "coerced parse (normalize_names df0) es"
  have g: "get_col ?d c = map_option (to_numeric parse) (get_col (normalize_names df0) c)"
    if "c \<in> set required_columns" for c
    using that by (simp add: coerced_get)
  have m: "c_current \<in> set required_columns" "c_voltage \<in> set required_columns"
    "c_power \<in> set required_columns"
    by (simp_all add: required_columns_def)
  show ?thesis
    using range_errors_total [OF g [OF m(1)]] range_errors_total [OF g [OF m(2)]]
      power_errors_total [OF g [OF m(1)] g [OF m(2)] g [OF m(3)]]
    by blast
qed

text \<open>
  Claim C9. For every table the call returns, and a second call on the table the first one
  left behind returns the same flag and the same list of errors.
\<close>

theorem validate_idempotent:
  "\<exists>df' valid errors df''.
     validate_experiment_data parse df = Inr (df', valid, errors) \<and>
     validate_experiment_data parse df' = Inr (df'', valid, errors)"
proof -
  define df1 where "df1 = normalize_names df"
  define df2 where "df2 = coerced parse df1 (missing_errors df1)"
  define df3 where "df3 = coerced parse df2 (missing_errors df2)"
  obtain e3 e4 e5 where
    r: "range_errors df2 c_current 1000 NegativeCurrent CurrentOverRange = Inr e3"
       "range_errors df2 c_voltage 10000 NegativeVoltage VoltageOverRange = Inr e4"
       "power_errors df2 = Inr e5"
    using validate_total_shape [of parse df "missing_errors df1"]
    unfolding df1_def df2_def by blast
  define errors where
    "errors = missing_errors df1 @ concat (map (nonnum parse df1) required_columns) @ e3 @ e4 @ e5"
  have first: "validate_experiment_data parse df = Inr (df2, errors = [], errors)"
    using r unfolding validate_shape Let_def df1_def [symmetric] df2_def [symmetric]
    by (simp add: bind_err_def errors_def)
  have "settled df1"
    unfolding df1_def by (rule settled_normalize)
  then have "settled df2"
    using settled_cong [of df2 df1] by (simp add: df2_def coerced_has)
  then have fixd: "normalize_names df2 = df2"
    by (rule settled_fixed)
  have same: "get_col df3 c = get_col df2 c" for c
    unfolding df3_def df2_def by (rule coerced_again)
  have miss: "missing_errors df2 = missing_errors df1"
    by (rule missing_errors_cong) (simp add: df2_def coerced_has)
  have "nonnum parse df2 c = nonnum parse df1 c" for c
    by (rule nonnum_cong) (auto simp: df2_def coerced_get)
  then have nn: "nonnum parse df2 = nonnum parse df1"
    by (rule ext)
  have r': "range_errors df3 c_current 1000 NegativeCurrent CurrentOverRange = Inr e3"
       "range_errors df3 c_voltage 10000 NegativeVoltage VoltageOverRange = Inr e4"
       "power_errors df3 = Inr e5"
    using r same range_errors_cong [of df3 _ df2] power_errors_cong [of df3 df2]
    by simp_all
  have second: "validate_experiment_data parse df2 = Inr (df3, errors = [], errors)"
    using r' unfolding validate_shape Let_def fixd df3_def [symmetric]
    by (simp add: bind_err_def errors_def miss nn)
  from first second show ?thesis by blast
qed

section \<open>Which frames the operations write to\<close>

lemma index_set_col: "index (set_col df c cs) = index df"
  by (simp add: set_col_def)

lemma fillna_frame:
  "fillna df column = Inr df' \<Longrightarrow>
     index df' = index df \<and>
     (\<forall>c. c \<noteq> filtered_name column \<longrightarrow> get_col df' c = get_col df c)"
  by (auto simp: fillna_def get_col_set_col index_set_col split: option.splits)

lemma filter_data_frame:
  assumes "filter_data df column method w = Inr df'"
  shows "index df' = index df \<and>
         (\<forall>c. c \<noteq> filtered_name column \<longrightarrow> get_col df' c = get_col df c)"
proof (cases "method \<in> set [''moving_average'', ''exponential'', ''median'']")
  case True
  with assms obtain xs ys where
    "fillna (set_col df (filtered_name column) (map F ys)) column = Inr df'"
    by (auto simp: filter_data_def bind_err_def split: sum.splits)
  from fillna_frame [OF this] show ?thesis
    by (simp add: get_col_set_col index_set_col)
next
  case False
  with assms have "fillna df column = Inr df'"
    by (simp add: filter_data_def)
  from fillna_frame [OF this] show ?thesis .
qed

lemma detect_anomalies_frame:
  assumes "detect_anomalies df column method = Inr df'"
  shows "index df' = index df \<and> (\<forall>c. c \<noteq> c_anomaly \<longrightarrow> get_col df' c = get_col df c)"
  using assms
  by (auto simp: detect_anomalies_def bind_err_def Let_def get_col_set_col index_set_col
      split: sum.splits if_splits)

lemma get_col_rename:
  "c \<noteq> old \<Longrightarrow> c \<noteq> new \<Longrightarrow> get_col (rename df old new) c = get_col df c"
proof -
  have "c \<noteq> old \<Longrightarrow> c \<noteq> new \<Longrightarrow>
        map_of (map (\<lambda>(k, v). (if k = old then new else k, v)) xs) c = map_of xs c"
    for xs :: "(string \<times> cell list) list"
    by (induction xs) auto
  then show "c \<noteq> old \<Longrightarrow> c \<noteq> new \<Longrightarrow> ?thesis"
    by (simp add: get_col_def rename_def)
qed

lemma rename_keeps: "index (rename df old new) = index df"
  "map snd (columns (rename df old new)) = map snd (columns df)"
  by (simp_all add: rename_def comp_def case_prod_beta)

lemma rename_first_keeps:
  "index (rename_first cn alts df) = index df"
  "map snd (columns (rename_first cn alts df)) = map snd (columns df)"
  using rename_first_cases [of cn alts df] by (auto simp: rename_keeps)

lemma get_col_rename_first:
  "c \<noteq> cn \<Longrightarrow> c \<notin> set alts \<Longrightarrow> get_col (rename_first cn alts df) c = get_col df c"
  using rename_first_cases [of cn alts df] by (metis get_col_rename)

lemma normalize_names_keeps:
  "index (normalize_names df) = index df"
  "map snd (columns (normalize_names df)) = map snd (columns df)"
  by (simp_all add: normalize_names_def alt_columns_def rename_first_keeps
      del: rename_first.simps)

lemma get_col_normalize_names:
  "c \<notin> set known_names \<Longrightarrow> get_col (normalize_names df) c = get_col df c"
  by (simp add: normalize_names_def alt_columns_def known_names_def get_col_rename_first
      del: rename_first.simps)

lemma index_coerced: "index (coerced parse df es) = index df"
proof -
  have "index (fst (fold (coerce_column parse) cols (d, e))) = index d" for cols d e
  proof (induction cols arbitrary: d e)
    case Nil
    show ?case by simp
  next
    case (Cons c cols)
    obtain d' e' where st: "coerce_column parse c (d, e) = (d', e')"
      by (cases "coerce_column parse c (d, e)")
    then have "index d' = index d"
      by (auto simp: coerce_column_def Let_def index_set_col split: option.splits)
    with Cons.IH [of d' e'] st show ?case by simp
  qed
  then show ?thesis by (simp add: coerced_def)
qed

lemma validate_frame:
  assumes "validate_experiment_data parse df = Inr (df', valid, errors)"
  shows "index df' = index df \<and>
         (\<forall>c. c \<notin> set known_names \<longrightarrow> get_col df' c = get_col df c) \<and>
         (\<forall>c \<in> set required_columns.
            get_col df' c = map_option (to_numeric parse) (get_col (normalize_names df) c))"
proof -
  from assms have d: "df' = coerced parse (normalize_names df) (missing_errors (normalize_names df))"
    unfolding validate_shape Let_def by (auto simp: bind_err_def split: sum.splits)
  have "set required_columns \<subseteq> set known_names"
    by (simp add: required_columns_def known_names_def alt_columns_def)
  then show ?thesis
    unfolding d by (auto simp: coerced_get index_coerced normalize_names_keeps get_col_normalize_names)
qed

lemma ex_upload_validate:
  "validate_experiment_data ex_parse ex_upload = Inr (ex_validated, True, [])"
  unfolding validate_unfold Let_def ex_upload_names
  by (simp add: required_columns_def has_col_def coerce_column_def get_col_def names_distinct
      to_numeric_def ex_parse_def set_col_def range_errors_def power_errors_def col_values_def
      bind_err_def fgt_def fsub_def ex_validated_def Let_def)
     (simp add: c_current_def c_voltage_def c_power_def)

text \<open>
  Claim C4, as stated, fails: \<open>validate_experiment_data\<close> renames the alias columns of the
  table it is given and overwrites the required columns with their coercion. After the call
  on \<open>ex_upload\<close> the caller's table has no column \<open>current\<close> any more, and the
  string cell \<open>1\<close> has become the number 1 under the canonical name.
\<close>

theorem validate_in_place_counterexample:
  "validate_call ex_parse [ex_upload] 0 = Inr ([ex_validated], True, []) \<and>
   get_col ex_upload ''current'' = Some [S ''1'', F (Fin 2)] \<and>
   get_col ex_validated ''current'' = None \<and>
   get_col ex_validated c_current = Some [F (Fin 1), F (Fin 2)]"
  by (simp add: validate_call_def ex_upload_validate bind_err_def)
     (simp add: ex_upload_def ex_validated_def get_col_def c_current_def c_voltage_def c_power_def)

text \<open>
  Claim C4, amended. \<open>filter_data\<close> and \<open>detect_anomalies\<close> write to a copy: every frame
  that existed before the call, the argument among them, is unchanged, and the returned frame
  has the index of the argument and the same cells in every column except the derived one.
  \<open>validate_experiment_data\<close> writes to its argument and to no other frame: the index
  is kept, every column whose name is neither a canonical name nor an alias is kept, and each
  required column holds the coercion of the column that carries its name after renaming.
\<close>

theorem frames_copied_or_changed_in_place:
  "(filter_call h a column method w = Inr (h1, b1) \<longrightarrow>
      b1 = length h \<and> take (length h) h1 = h \<and> index (h1 ! b1) = index (h ! a) \<and>
      (\<forall>c. c \<noteq> filtered_name column \<longrightarrow> get_col (h1 ! b1) c = get_col (h ! a) c)) \<and>
   (detect_call h a column method' = Inr (h2, b2) \<longrightarrow>
      b2 = length h \<and> take (length h) h2 = h \<and> index (h2 ! b2) = index (h ! a) \<and>
      (\<forall>c. c \<noteq> c_anomaly \<longrightarrow> get_col (h2 ! b2) c = get_col (h ! a) c)) \<and>
   (a < length h \<and> validate_call parse h a = Inr (h3, valid, errors) \<longrightarrow>
      length h3 = length h \<and> (\<forall>i < length h. i \<noteq> a \<longrightarrow> h3 ! i = h ! i) \<and>
      index (h3 ! a) = index (h ! a) \<and>
      (\<forall>c. c \<notin> set known_names \<longrightarrow> get_col (h3 ! a) c = get_col (h ! a) c) \<and>
      (\<forall>c \<in> set required_columns.
         get_col (h3 ! a) c =
           map_option (to_numeric parse) (get_col (normalize_names (h ! a)) c)))"
proof (intro conjI impI)
  assume "filter_call h a column method w = Inr (h1, b1)"
  then obtain df' where f: "filter_data (h ! a) column method w = Inr df'"
    and h1: "h1 = (h @ [h ! a])[length h := df']" and b1: "b1 = length h"
    by (auto simp: filter_call_def Let_def bind_err_def split: sum.splits)
  from b1 show "b1 = length h" .
  from h1 show "take (length h) h1 = h" by simp
  from h1 b1 have "h1 ! b1 = df'" by simp
  with filter_data_frame [OF f]
  show "index (h1 ! b1) = index (h ! a)"
    "\<forall>c. c \<noteq> filtered_name column \<longrightarrow> get_col (h1 ! b1) c = get_col (h ! a) c"
    by simp_all
next
  assume "detect_call h a column method' = Inr (h2, b2)"
  then obtain df' where f: "detect_anomalies (h ! a) column method' = Inr df'"
    and h2: "h2 = (h @ [h ! a])[length h := df']" and b2: "b2 = length h"
    by (auto simp: detect_call_def Let_def bind_err_def split: sum.splits)
  from b2 show "b2 = length h" .
  from h2 show "take (length h) h2 = h" by simp
  from h2 b2 have "h2 ! b2 = df'" by simp
  with detect_anomalies_frame [OF f]
  show "index (h2 ! b2) = index (h ! a)"
    "\<forall>c. c \<noteq> c_anomaly \<longrightarrow> get_col (h2 ! b2) c = get_col (h ! a) c"
    by simp_all
next
  assume "a < length h \<and> validate_call parse h a = Inr (h3, valid, errors)"
  then obtain df' where a: "a < length h"
    and v: "validate_experiment_data parse (h ! a) = Inr (df', valid, errors)"
    and h3: "h3 = h[a := df']"
    by (auto simp: validate_call_def bind_err_def split: sum.splits)
  from h3 show "length h3 = length h" by simp
  from h3 show "\<forall>i < length h. i \<noteq> a \<longrightarrow> h3 ! i = h ! i" by simp
  from h3 a have "h3 ! a = df'" by simp
  with validate_frame [OF v]
  show "index (h3 ! a) = index (h ! a)"
    "\<forall>c. c \<notin> set known_names \<longrightarrow> get_col (h3 ! a) c = get_col (h ! a) c"
    "\<forall>c \<in> set required_columns.
         get_col (h3 ! a) c =
           map_option (to_numeric parse) (get_col (normalize_names (h ! a)) c)"
    by simp_all
qed

lemma filter_data_returns:
  "col_values df column = Inr xs \<Longrightarrow> 1 \<le> w \<Longrightarrow>
   method \<in> set [''moving_average'', ''exponential'', ''median''] \<Longrightarrow>
   \<exists>df'. filter_data df column method w = Inr df'"
  by (auto simp: filter_data_def bind_err_def smooth_def fillna_def get_col_set_col col_values_def
      split: option.splits)

lemma detect_anomalies_returns:
  "col_values df column = Inr xs \<Longrightarrow> \<exists>df'. detect_anomalies df column method = Inr df'"
  by (simp add: detect_anomalies_def bind_err_def Let_def)

lemma ex_upload_power: "col_values ex_upload ''power'' = Inr [Fin 10, Fin 41]"
  by (simp add: col_values_def ex_upload_def get_col_def)

theorem frames_copied_or_changed_in_place_witness:
  "(\<exists>h1. filter_call [ex_upload] 0 ''power'' ''median'' 3 = Inr (h1, 1) \<and> take 1 h1 = [ex_upload] \<and>
          get_col (h1 ! 1) ''note'' = Some [S ''a'', S ''b'']) \<and>
   (\<exists>h2. detect_call [ex_upload] 0 ''power'' ''zscore'' = Inr (h2, 1) \<and> take 1 h2 = [ex_upload] \<and>
          get_col (h2 ! 1) ''note'' = Some [S ''a'', S ''b'']) \<and>
   validate_call ex_parse [ex_upload] 0 = Inr ([ex_validated], True, []) \<and>
   get_col ex_validated ''note'' = Some [S ''a'', S ''b'']"
proof -
  obtain d1 where "filter_data ex_upload ''power'' ''median'' 3 = Inr d1"
    using filter_data_returns [OF ex_upload_power, of 3 "''median''"] by auto
  then have f: "filter_call [ex_upload] 0 ''power'' ''median'' 3 = Inr ([ex_upload, d1], 1)"
    by (simp add: filter_call_def bind_err_def)
  obtain d2 where "detect_anomalies ex_upload ''power'' ''zscore'' = Inr d2"
    using detect_anomalies_returns [OF ex_upload_power] by auto
  then have d: "detect_call [ex_upload] 0 ''power'' ''zscore'' = Inr ([ex_upload, d2], 1)"
    by (simp add: detect_call_def bind_err_def)
  have v: "validate_call ex_parse [ex_upload] 0 = Inr ([ex_validated], True, [])"
    by (simp add: validate_call_def ex_upload_validate bind_err_def)
  have n: "get_col ex_upload ''note'' = Some [S ''a'', S ''b'']"
    by (simp add: ex_upload_def get_col_def)
  have k: "''note'' \<noteq> filtered_name ''power''" "''note'' \<noteq> c_anomaly" "''note'' \<notin> set known_names"
    by (simp_all add: filtered_name_def c_anomaly_def known_names_def alt_columns_def
        c_current_def c_voltage_def c_power_def)
  show ?thesis
    using frames_copied_or_changed_in_place [of "[ex_upload]" 0 "''power''" "''median''" 3
        "[ex_upload, d1]" 1 "''zscore''" "[ex_upload, d2]" 1 ex_parse "[ex_validated]" True "[]"]
      f d v n k
    by simp
qed

section \<open>Statistics and anomaly flags\<close>

lemma col_values_has: "col_values df c = Inr xs \<Longrightarrow> has_col df c"
  by (auto simp: col_values_def has_col_get split: option.splits)

lemma column_stats_keys:
  "column_stats df col = Inr s \<Longrightarrow> col \<in> set required_columns \<Longrightarrow>
   map_of s k_power_factor = None"
  by (auto simp: column_stats_def bind_err_def required_columns_def k_power_factor_def
      c_current_def c_voltage_def c_power_def s_mean_def s_max_def s_min_def s_std_def
      s_median_def split: if_splits sum.splits)

lemma column_stats_returns:
  "col_values df col = Inr xs \<Longrightarrow> \<exists>s. column_stats df col = Inr s"
  by (simp add: column_stats_def bind_err_def)

lemma power_factor_value:
  assumes "col_values df c_current = Inr cur" "col_values df c_voltage = Inr vol"
    "col_values df c_power = Inr pow"
  shows "power_factor df = Inr (fdiv (mean pow) (fmul (mean cur) (mean vol)))"
  using assms col_values_has [OF assms(1)] col_values_has [OF assms(2)]
  by (simp add: power_factor_def bind_err_def)

lemma stat_entry_power_factor:
  assumes "col_values df c_current = Inr cur" "col_values df c_voltage = Inr vol"
    "col_values df c_power = Inr pow"
  shows "stat_entry df k_power_factor =
           Inr (Some (fdiv (mean pow) (fmul (mean cur) (mean vol))))"
proof -
  obtain s1 s2 s3 where s: "column_stats df c_current = Inr s1"
    "column_stats df c_voltage = Inr s2" "column_stats df c_power = Inr s3"
    using column_stats_returns [OF assms(1)] column_stats_returns [OF assms(2)]
      column_stats_returns [OF assms(3)] by blast
  have m: "c_current \<in> set required_columns" "c_voltage \<in> set required_columns"
    "c_power \<in> set required_columns"
    by (simp_all add: required_columns_def)
  have n: "map_of s1 k_power_factor = None" "map_of s2 k_power_factor = None"
    "map_of s3 k_power_factor = None"
    using s m column_stats_keys by blast+
  have e: "k_energy \<noteq> k_power_factor"
    by (simp add: k_energy_def k_power_factor_def)
  show ?thesis
    using s n e assms(3) col_values_has [OF assms(3)] power_factor_value [OF assms]
    by (simp add: stat_entry_def calculate_statistics_def bind_err_def map_add_def)
qed

lemma fdiv_by_zero: "fdiv x (Fin 0) \<in> {PInf, NInf, NaN}"
  by (cases x) auto

text \<open>
  Claim C2, amended. With the three columns present and numeric, the power factor entry of
  the result is the quotient of the mean power by the product of the mean current and the
  mean voltage, computed as numpy divides: when that product is 0 the entry is an infinity
  or NaN, never 0, and the call still returns.
\<close>

theorem power_factor_entry:
  assumes "col_values df c_current = Inr cur" "col_values df c_voltage = Inr vol"
    "col_values df c_power = Inr pow"
  shows "stat_entry df k_power_factor =
           Inr (Some (fdiv (mean pow) (fmul (mean cur) (mean vol)))) \<and>
         (fmul (mean cur) (mean vol) = Fin 0 \<longrightarrow>
            stat_entry df k_power_factor \<in> {Inr (Some PInf), Inr (Some NInf), Inr (Some NaN)})"
  using stat_entry_power_factor [OF assms] fdiv_by_zero [of "mean pow"] by auto

lemma ex_idle_values:
  "col_values ex_idle c_current = Inr [Fin 0, Fin 0]"
  "col_values ex_idle c_voltage = Inr [Fin 20, Fin 20]"
  "col_values ex_idle c_power = Inr [Fin 0, Fin 0]"
  by (simp_all add: col_values_def ex_idle_def get_col_def names_distinct)

lemma ex_idle_means:
  "mean [Fin 0, Fin 0] = Fin 0" "mean [Fin 20, Fin 20] = Fin 20"
  by (simp_all add: mean_def dropna_def fsum_def)

text \<open>
  Claim C2, as stated, fails: there is no guard on the denominator. On a table with current
  0 in every row (the device is shut off) the product of the means is 0 and the entry is
  NaN, not 0.
\<close>

theorem power_factor_zero_counterexample:
  "fmul (mean [Fin 0, Fin 0]) (mean [Fin 20, Fin 20]) = Fin 0 \<and>
   stat_entry ex_idle k_power_factor = Inr (Some NaN)"
  using stat_entry_power_factor [OF ex_idle_values] by (simp add: ex_idle_means)

theorem power_factor_entry_witness:
  "col_values ex_idle c_current = Inr [Fin 0, Fin 0] \<and>
   col_values ex_idle c_voltage = Inr [Fin 20, Fin 20] \<and>
   col_values ex_idle c_power = Inr [Fin 0, Fin 0] \<and>
   fmul (mean [Fin 0, Fin 0]) (mean [Fin 20, Fin 20]) = Fin 0 \<and>
   stat_entry ex_idle k_power_factor
     = Inr (Some (fdiv (mean [Fin 0, Fin 0]) (fmul (mean [Fin 0, Fin 0]) (mean [Fin 20, Fin 20])))) \<and>
   stat_entry ex_idle k_power_factor \<in> {Inr (Some PInf), Inr (Some NInf), Inr (Some NaN)}"
  using power_factor_entry [OF ex_idle_values] ex_idle_values
  by (simp add: ex_idle_means)














section \<open>Properties of filter_data\<close>

lemma col_values_cells:
  "col_values df c = Inr xs \<Longrightarrow>
   \<exists>raw. get_col df c = Some raw \<and> list_all (\<lambda>x. cell_num x \<noteq> None) raw \<and>
         xs = map (\<lambda>x. the (cell_num x)) raw"
  by (auto simp: col_values_def split: option.splits if_splits)

lemma filtered_name_neq: "filtered_name column \<noteq> column"
  by (simp add: filtered_name_def)

lemma fill_num:
  "cell_num x \<noteq> None \<Longrightarrow>
   cell_num (fill (F y) x) = Some (if y = NaN then the (cell_num x) else y)"
  by (auto simp: fill_def)

lemma fill_column:
  "list_all (\<lambda>x. cell_num x \<noteq> None) raw \<Longrightarrow>
   list_all (\<lambda>x. cell_num x \<noteq> None) (map2 fill (map F ys) raw) \<and>
   map (\<lambda>x. the (cell_num x)) (map2 fill (map F ys) raw) =
     refill ys (map (\<lambda>x. the (cell_num x)) raw)"
proof (induction raw arbitrary: ys)
  case Nil
  then show ?case by (simp add: refill_def)
next
  case (Cons x raw)
  then show ?case
    by (cases ys) (auto simp: refill_def fill_num)
qed

lemma filter_data_result:
  assumes xs: "col_values df column = Inr xs"
    and m: "method \<in> set [''moving_average'', ''exponential'', ''median'']"
    and ys: "smooth method w xs = Inr ys"
  shows "\<exists>df'. filter_data df column method w = Inr df' \<and>
               col_values df' (filtered_name column) = Inr (refill ys xs)"
proof -
  from col_values_cells [OF xs] obtain raw where
    raw: "get_col df column = Some raw" "list_all (\<lambda>x. cell_num x \<noteq> None) raw"
    "xs = map (\<lambda>x. the (cell_num x)) raw"
    by blast
  let ?d1 = "set_col df (filtered_name column) (map F ys)"
  let ?d2 = "set_col ?d1 (filtered_name column) (map2 fill (map F ys) raw)"
  have g: "get_col ?d1 column = Some raw"
    using raw(1) filtered_name_neq [of column] by (simp add: get_col_set_col)
  have "get_col ?d1 (filtered_name column) = Some (map F ys)"
    by (simp add: get_col_set_col)
  with g have "fillna ?d1 column = Inr ?d2"
    by (simp add: fillna_def)
  with xs m ys have f: "filter_data df column method w = Inr ?d2"
    by (simp add: filter_data_def bind_err_def)
  have "col_values ?d2 (filtered_name column) = Inr (refill ys xs)"
    using fill_column [OF raw(2), of ys] raw(3)
    by (simp add: col_values_def get_col_set_col)
  with f show ?thesis by blast
qed

lemma length_window_at: "length (window_at w xs i) \<le> length xs"
  by (simp add: window_at_def Let_def)

lemma length_observed: "length (observed win) \<le> length win"
  by (simp add: observed_def)

lemma rolling_short:
  "int (length xs) < w \<Longrightarrow> rolling agg w xs = map (\<lambda>i. None) [0..<length xs]"
proof -
  assume w: "int (length xs) < w"
  have "length (observed (window_at w xs i)) \<le> length xs" for i
    using length_observed [of "window_at w xs i"] length_window_at [of w xs i] by linarith
  with w have "\<not> w \<le> int (length (observed (window_at w xs i)))" for i
    by (simp add: not_le) (meson le_less_trans of_nat_le_iff order.strict_trans1 not_le)
  then show ?thesis
    by (simp add: rolling_def Let_def)
qed

lemma refill_all_nan: "refill (map (\<lambda>i. NaN) [0..<length xs]) xs = xs"
proof -
  have "map2 (\<lambda>y x. if y = NaN then x else y) (map (\<lambda>i. NaN) [k..<k + length xs]) xs = xs" for k
  proof (induction xs arbitrary: k)
    case Nil
    show ?case by simp
  next
    case (Cons x xs)
    from Cons [of "Suc k"] show ?case by (simp add: upt_rec)
  qed
  from this [of 0] show ?thesis by (simp add: refill_def)
qed

lemma length_ewm_loop: "length (ewm_loop alpha weighted old_wt xs) = length xs"
  by (induction alpha weighted old_wt xs rule: ewm_loop.induct) (simp_all add: Let_def)

lemma length_ewm_mean: "length (ewm_mean w xs) = length xs"
  by (cases xs) (simp_all add: ewm_mean_def length_ewm_loop)

lemma length_refill: "length ys = length xs \<Longrightarrow> length (refill ys xs) = length xs"
  by (simp add: refill_def)

text \<open>
  Claim C8. With a window larger than the number of rows, on a numeric column and with any
  of the three methods, \<open>filter_data\<close> returns a table whose filtered column has a
  value for every row; for the two rolling methods it is the raw column.
\<close>

theorem filter_data_large_window:
  assumes "col_values df column = Inr xs"
    and "method \<in> set [''moving_average'', ''exponential'', ''median'']"
    and "int (length xs) < w"
  shows "\<exists>df' ys. filter_data df column method w = Inr df' \<and>
                  col_values df' (filtered_name column) = Inr ys \<and>
                  length ys = length xs \<and>
                  (method \<noteq> ''exponential'' \<longrightarrow> ys = xs)"
proof -
  from assms(3) have w: "1 \<le> w" "\<not> w < 0" "\<not> w < 1" by simp_all
  have r: "map unprep (rolling agg w (map prep xs)) = map (\<lambda>i. NaN) [0..<length xs]" for agg
    using rolling_short [of "map prep xs" w agg] assms(3) by (simp add: unprep_def comp_def)
  show ?thesis
  proof (cases "method = ''exponential''")
    case True
    then have "smooth method w xs = Inr (map unprep (ewm_mean w (map prep xs)))"
      using w by (simp add: smooth_def)
    from filter_data_result [OF assms(1,2) this] show ?thesis
      using True by (auto simp: length_refill length_ewm_mean)
  next
    case False
    then have "smooth method w xs = Inr (map (\<lambda>i. NaN) [0..<length xs])"
      using w r by (simp add: smooth_def)
    from filter_data_result [OF assms(1,2) this] show ?thesis
      by (auto simp: refill_all_nan)
  qed
qed

theorem filter_data_large_window_witness:
  "col_values ex_upload ''power'' = Inr [Fin 10, Fin 41] \<and>
   int (length [Fin 10, Fin 41]) < 3 \<and>
   (\<exists>df'. filter_data ex_upload ''power'' ''median'' 3 = Inr df' \<and>
          col_values df' (filtered_name ''power'') = Inr [Fin 10, Fin 41])"
  using filter_data_large_window [OF ex_upload_power, of "''median''" 3] ex_upload_power
  by auto








lemma window_at_fits:
  assumes "fits w (length xs) i" and "1 \<le> w"
  shows "window_at w xs i = centred w xs i" and "length (window_at w xs i) = nat w"
proof -
  define E where "E = int i + 1 + (w - 1) div 2"
  from assms have b: "0 \<le> E - w" "E \<le> int (length xs)"
    by (simp_all add: fits_def E_def)
  with assms(2) have c: "clip E (length xs) = nat E" "clip (E - w) (length xs) = nat (E - w)"
    by (auto simp: clip_def)
  from b assms(2) have d: "nat E - nat (E - w) = nat w"
    by linarith
  show "window_at w xs i = centred w xs i"
    using c d by (simp add: window_at_def centred_def Let_def E_def [symmetric])
  from b assms(2) have "nat w \<le> length xs - nat (E - w)"
    by linarith
  then show "length (window_at w xs i) = nat w"
    using c d by (simp add: window_at_def Let_def E_def [symmetric])
qed

lemma window_at_cut:
  assumes "\<not> fits w (length xs) i" and "1 \<le> w"
  shows "int (length (window_at w xs i)) < w"
proof -
  define E where "E = int i + 1 + (w - 1) div 2"
  define e where "e = clip E (length xs)"
  define s where "s = clip (E - w) (length xs)"
  have len: "length (window_at w xs i) = min (e - s) (length xs - s)"
    by (simp add: window_at_def Let_def E_def [symmetric] e_def s_def)
  from assms(1) have "\<not> (0 \<le> E - w \<and> E \<le> int (length xs))"
    by (simp add: fits_def E_def)
  then consider "E - w < 0" | "0 \<le> E - w" "int (length xs) < E"
    by linarith
  then show ?thesis
  proof cases
    case 1
    then have "s = 0" by (simp add: s_def clip_def)
    moreover from 1 assms(2) have "int e < w"
      by (auto simp: e_def clip_def)
    ultimately show ?thesis using len by simp
  next
    case 2
    then have "int (length xs - s) < w"
      using assms(2) by (auto simp: s_def clip_def)
    with len show ?thesis by simp
  qed
qed

lemma window_at_map: "window_at w (map f xs) i = map f (window_at w xs i)"
  by (simp add: window_at_def Let_def take_map drop_map)

lemma observed_all:
  "list_all (\<lambda>x. prep x \<noteq> None) win \<Longrightarrow>
   observed (map prep win) = map (\<lambda>x. the (prep x)) win"
  by (induction win) (simp_all add: observed_def)

lemma observed_some_missing:
  assumes "\<not> list_all (\<lambda>x. prep x \<noteq> None) win"
  shows "length (observed (map prep win)) < length win"
proof -
  from assms obtain x where "x \<in> set win" "\<not> prep x \<noteq> None"
    by (auto simp: list_all_iff)
  then have "length (filter (\<lambda>x. prep x \<noteq> None) win) < length win"
    by (rule length_filter_less)
  then show ?thesis
    by (simp add: observed_def filter_map comp_def)
qed

lemma rolling_mean_at:
  assumes "i < length xs" and "1 \<le> w"
  shows "unprep (rolling mean_of w (map prep xs) ! i) =
           (if fits w (length xs) i \<and> list_all (\<lambda>x. prep x \<noteq> None) (centred w xs i)
            then Fin (sum_list (map (\<lambda>x. the (prep x)) (centred w xs i)) / real_of_int w)
            else NaN)"
proof -
  let ?win = "window_at w xs i"
  let ?obs = "observed (map prep ?win)"
  have r: "rolling mean_of w (map prep xs) ! i =
             (if w \<le> int (length ?obs) \<and> 0 < length ?obs then Some (mean_of ?obs) else None)"
    using assms(1) by (simp add: rolling_def Let_def window_at_map)
  show ?thesis
  proof (cases "fits w (length xs) i")
    case False
    from window_at_cut [OF False assms(2)] length_observed [of "map prep ?win"]
    have "\<not> w \<le> int (length ?obs)" by simp
    with False r show ?thesis by (simp add: unprep_def)
  next
    case True
    note w = window_at_fits [OF True assms(2)]
    show ?thesis
    proof (cases "list_all (\<lambda>x. prep x \<noteq> None) (centred w xs i)")
      case False
      with observed_some_missing [of ?win] w have "\<not> w \<le> int (length ?obs)"
        by simp
      with False r show ?thesis by (simp add: unprep_def)
    next
      case all: True
      with observed_all [of ?win] w have o: "?obs = map (\<lambda>x. the (prep x)) (centred w xs i)"
        by simp
      then have l: "length ?obs = nat w"
        using w by (metis length_map)
      with assms(2) have "w \<le> int (length ?obs)" "0 < length ?obs" "real (length ?obs) = real_of_int w"
        by simp_all
      with r True all show ?thesis
        unfolding mean_of_def by (simp add: unprep_def o [symmetric])
    qed
  qed
qed

lemma length_rolling: "length (rolling agg w xs) = length xs"
  by (simp add: rolling_def)

lemma refill_nth:
  "length ys = length xs \<Longrightarrow> i < length xs \<Longrightarrow>
   refill ys xs ! i = (if ys ! i = NaN then xs ! i else ys ! i)"
  by (simp add: refill_def)

text \<open>
  Claim C6. With method \<open>moving_average\<close> and a window of at least 1 on a numeric column,
  the filtered value at a row whose centred window lies inside the series and holds only
  finite numbers is the mean of the window; at every other row, so at every edge row where the
  window does not fit, it is the raw value. The witness below is the series 1, 2, 3, 4, 5
  of the claim with window 3: the value at index 2 is 3, the values at indices 0 and 4 are
  1 and 5.
\<close>

theorem moving_average_centred:
  assumes "col_values df column = Inr xs" and "1 \<le> w"
  shows "\<exists>df' ys. filter_data df column ''moving_average'' w = Inr df' \<and>
           col_values df' (filtered_name column) = Inr ys \<and>
           length ys = length xs \<and>
           (\<forall>i < length xs.
              ys ! i =
                (if fits w (length xs) i \<and> list_all (\<lambda>x. prep x \<noteq> None) (centred w xs i)
                 then Fin (sum_list (map (\<lambda>x. the (prep x)) (centred w xs i)) / real_of_int w)
                 else xs ! i))"
proof -
  define zs where "zs = map unprep (rolling mean_of w (map prep xs))"
  from assms(2) have s: "smooth ''moving_average'' w xs = Inr zs"
    by (simp add: smooth_def zs_def)
  have m: "''moving_average'' \<in> set [''moving_average'', ''exponential'', ''median'']"
    by simp
  from filter_data_result [OF assms(1) m s] obtain df' where
    d: "filter_data df column ''moving_average'' w = Inr df'"
    "col_values df' (filtered_name column) = Inr (refill zs xs)"
    by blast
  have len: "length zs = length xs"
    by (simp add: zs_def length_rolling)
  have z: "zs ! i = unprep (rolling mean_of w (map prep xs) ! i)" if "i < length xs" for i
    using that by (simp add: zs_def length_rolling)
  have "refill zs xs ! i =
          (if fits w (length xs) i \<and> list_all (\<lambda>x. prep x \<noteq> None) (centred w xs i)
           then Fin (sum_list (map (\<lambda>x. the (prep x)) (centred w xs i)) / real_of_int w)
           else xs ! i)" if "i < length xs" for i
    using that by (simp add: refill_nth [OF len] z rolling_mean_at [OF that assms(2)])
  with d len show ?thesis
    by (auto simp: length_refill)
qed

lemma ex_series_power:
  "col_values ex_series ''power'' = Inr [Fin 1, Fin 2, Fin 3, Fin 4, Fin 5]"
  by (simp add: col_values_def ex_series_def get_col_def)

lemma ex_spikes_power:
  "col_values ex_spikes ''power'' = Inr [Fin 1, Fin 5, Fin 3, Fin 10, NaN]"
  by (simp add: col_values_def ex_spikes_def get_col_def)

theorem moving_average_centred_witness:
  "col_values ex_series ''power'' = Inr [Fin 1, Fin 2, Fin 3, Fin 4, Fin 5] \<and>
   col_values ex_spikes ''power'' = Inr [Fin 1, Fin 5, Fin 3, Fin 10, NaN] \<and> (1::int) \<le> 3 \<and>
   (\<exists>df' ys. filter_data ex_series ''power'' ''moving_average'' 3 = Inr df' \<and>
      col_values df' (filtered_name ''power'') = Inr ys \<and>
      ys ! 2 = Fin 3 \<and> ys ! 0 = Fin 1 \<and> ys ! 4 = Fin 5) \<and>
   (\<exists>df' ys. filter_data ex_spikes ''power'' ''moving_average'' 3 = Inr df' \<and>
      col_values df' (filtered_name ''power'') = Inr ys \<and>
      ys ! 0 = Fin 1 \<and> ys ! 1 = Fin 3 \<and> ys ! 2 = Fin 6 \<and> ys ! 3 = Fin 10 \<and> ys ! 4 = NaN)"
proof -
  let ?xs = "[Fin 1, Fin 2, Fin 3, Fin 4, Fin 5]"
  let ?zs = "[Fin 1, Fin 5, Fin 3, Fin 10, NaN]"
  have w: "(1::int) \<le> 3" by simp
  from moving_average_centred [OF ex_series_power w] obtain d1 ys where
    a: "filter_data ex_series ''power'' ''moving_average'' 3 = Inr d1"
       "col_values d1 (filtered_name ''power'') = Inr ys"
    and n: "\<forall>i < length ?xs. ys ! i =
              (if fits 3 (length ?xs) i \<and> list_all (\<lambda>x. prep x \<noteq> None) (centred 3 ?xs i)
               then Fin (sum_list (map (\<lambda>x. the (prep x)) (centred 3 ?xs i)) / real_of_int 3)
               else ?xs ! i)"
    by blast
  from n [rule_format, of 2] n [rule_format, of 0] n [rule_format, of 4]
  have a': "ys ! 2 = Fin 3" "ys ! 0 = Fin 1" "ys ! 4 = Fin 5"
    by (simp_all add: fits_def centred_def prep_def)
  from moving_average_centred [OF ex_spikes_power w] obtain d2 zs where
    b: "filter_data ex_spikes ''power'' ''moving_average'' 3 = Inr d2"
       "col_values d2 (filtered_name ''power'') = Inr zs"
    and m: "\<forall>i < length ?zs. zs ! i =
              (if fits 3 (length ?zs) i \<and> list_all (\<lambda>x. prep x \<noteq> None) (centred 3 ?zs i)
               then Fin (sum_list (map (\<lambda>x. the (prep x)) (centred 3 ?zs i)) / real_of_int 3)
               else ?zs ! i)"
    by blast
  from m [rule_format, of 0] m [rule_format, of 1] m [rule_format, of 2] m [rule_format, of 3]
    m [rule_format, of 4]
  have b': "zs ! 0 = Fin 1" "zs ! 1 = Fin 3" "zs ! 2 = Fin 6" "zs ! 3 = Fin 10" "zs ! 4 = NaN"
    by (simp_all add: fits_def centred_def prep_def)
  from a a' b b' ex_series_power ex_spikes_power show ?thesis
    by auto
qed

section \<open>Properties of prepare_for_database\<close>

lemma py_float_returns: "float_ok env c \<Longrightarrow> \<exists>v. py_float env c = Inr v"
  by (auto simp: float_ok_def py_float_def split: cell.splits)

lemma py_int_returns: "int_ok env c \<Longrightarrow> \<exists>a. py_int env c = Inr a"
  by (auto simp: int_ok_def py_int_def split: cell.splits fval.splits)

lemma get_float_returns:
  "(\<And>c. row_get df k key = Some c \<Longrightarrow> float_ok env c) \<Longrightarrow> \<exists>v. get_float env df k key = Inr v"
  using py_float_returns by (cases "row_get df k key") (auto simp: get_float_def)

lemma get_optional_returns:
  "(\<And>c. row_get df k key = Some c \<Longrightarrow> float_ok env c) \<Longrightarrow>
   \<exists>v. get_optional env df k key = Inr v"
proof (cases "row_get df k key")
  case None
  then show ?thesis by (simp add: get_optional_def)
next
  case (Some c)
  assume "\<And>c. row_get df k key = Some c \<Longrightarrow> float_ok env c"
  with Some py_float_returns obtain v where "py_float env c = Inr v" by blast
  with Some show ?thesis by (simp add: get_optional_def bind_err_def)
qed

lemma make_record_returns:
  assumes "convertible env df" and "k < length (index df)"
  shows "\<exists>r. make_record env df eid k = Inr r"
proof -
  have f: "float_ok env c"
    if "row_get df k key = Some c"
      "key \<in> set [c_current, c_voltage, c_power, c_temperature, c_humidity]" for key c
    using assms that unfolding convertible_def by blast
  have "\<exists>v. get_float env df k c_current = Inr v"
    by (rule get_float_returns) (erule f, simp)
  then obtain cur where 1: "get_float env df k c_current = Inr cur" ..
  have "\<exists>v. get_float env df k c_voltage = Inr v"
    by (rule get_float_returns) (erule f, simp)
  then obtain vol where 2: "get_float env df k c_voltage = Inr vol" ..
  have "\<exists>v. get_float env df k c_power = Inr v"
    by (rule get_float_returns) (erule f, simp)
  then obtain pow where 3: "get_float env df k c_power = Inr pow" ..
  have "\<exists>v. get_optional env df k c_temperature = Inr v"
    by (rule get_optional_returns) (erule f, simp)
  then obtain temp where 4: "get_optional env df k c_temperature = Inr temp" ..
  have "\<exists>v. get_optional env df k c_humidity = Inr v"
    by (rule get_optional_returns) (erule f, simp)
  then obtain hum where 5: "get_optional env df k c_humidity = Inr hum" ..
  have "\<exists>a. (case row_get df k c_device_address of None \<Rightarrow> Inr 1 | Some c \<Rightarrow> py_int env c) = Inr a"
  proof (cases "row_get df k c_device_address")
    case None
    then show ?thesis by simp
  next
    case (Some c)
    with assms have "int_ok env c" unfolding convertible_def by blast
    with Some py_int_returns show ?thesis by simp
  qed
  then obtain a where
    "(case row_get df k c_device_address of None \<Rightarrow> Inr 1 | Some c \<Rightarrow> py_int env c) = Inr a" ..
  with 1 2 3 4 5 show ?thesis
    by (simp add: make_record_def bind_err_def Let_def)
qed

lemma make_record_shape:
  assumes "make_record env df eid k = Inr r"
  shows "\<exists>cur vol pow addr temp hum.
           get_float env df k c_current = Inr cur \<and> get_float env df k c_voltage = Inr vol \<and>
           get_float env df k c_power = Inr pow \<and>
           r = \<lparr>experiment_id = eid, sequence_number = index df ! k + 1, current = cur,
                voltage = vol, power_val = pow, device_address = addr,
                device_type = (case row_get df k c_device_type of
                                 None \<Rightarrow> unknown_type | Some c \<Rightarrow> py_str env c),
                timestamp = (case row_get df k c_timestamp of
                               None \<Rightarrow> Clock (now env k) | Some c \<Rightarrow> FromRow c),
                temperature = temp, humidity = hum\<rparr>"
proof -
  obtain cur where 1: "get_float env df k c_current = Inr cur"
    using assms by (cases "get_float env df k c_current") (simp_all add: make_record_def bind_err_def Let_def)
  obtain vol where 2: "get_float env df k c_voltage = Inr vol"
    using assms 1 by (cases "get_float env df k c_voltage") (simp_all add: make_record_def bind_err_def Let_def)
  obtain pow where 3: "get_float env df k c_power = Inr pow"
    using assms 1 2 by (cases "get_float env df k c_power") (simp_all add: make_record_def bind_err_def Let_def)
  let ?a = "case row_get df k c_device_address of None \<Rightarrow> Inr 1 | Some c \<Rightarrow> py_int env c"
  obtain addr where 4: "?a = Inr addr"
    using assms 1 2 3 by (cases ?a) (simp_all add: make_record_def bind_err_def Let_def)
  obtain temp where 5: "get_optional env df k c_temperature = Inr temp"
    using assms 1 2 3 4
    by (cases "get_optional env df k c_temperature") (simp_all add: make_record_def bind_err_def Let_def)
  obtain hum where 6: "get_optional env df k c_humidity = Inr hum"
    using assms 1 2 3 4 5
    by (cases "get_optional env df k c_humidity") (simp_all add: make_record_def bind_err_def Let_def)
  from assms 1 2 3 4 5 6 show ?thesis
    by (simp add: make_record_def bind_err_def Let_def) blast
qed

lemma get_float_missing: "\<not> has_col df key \<Longrightarrow> get_float env df k key = Inr (Fin 0)"
  by (simp add: get_float_def row_get_def has_col_get)

lemma make_record_fields:
  assumes "make_record env df eid k = Inr r"
  shows "sequence_number r = index df ! k + 1"
    and "experiment_id r = eid"
    and "\<not> has_col df c_current \<Longrightarrow> current r = Fin 0"
    and "\<not> has_col df c_voltage \<Longrightarrow> voltage r = Fin 0"
    and "\<not> has_col df c_power \<Longrightarrow> power_val r = Fin 0"
    and "timestamp r = (case get_col df c_timestamp of
                          None \<Rightarrow> Clock (now env k) | Some cs \<Rightarrow> FromRow (cs ! k))"
  using make_record_shape [OF assms]
  by (auto simp: get_float_missing row_get_def split: option.splits)

lemma build_records_returns:
  "(\<And>k. k \<in> set ks \<Longrightarrow> \<exists>r. make_record env df eid k = Inr r) \<Longrightarrow>
   \<exists>rs. build_records env df eid ks = Inr rs"
proof (induction ks)
  case Nil
  show ?case by simp
next
  case (Cons k ks)
  then obtain r rs where "make_record env df eid k = Inr r" "build_records env df eid ks = Inr rs"
    by (metis list.set_intros)
  then show ?case by (simp add: bind_err_def)
qed

lemma build_records_each:
  "build_records env df eid ks = Inr rs \<Longrightarrow>
   length rs = length ks \<and> (\<forall>j < length ks. make_record env df eid (ks ! j) = Inr (rs ! j))"
proof (induction ks arbitrary: rs)
  case Nil
  then show ?case by simp
next
  case (Cons k ks)
  then obtain r rs' where r: "make_record env df eid k = Inr r"
    and rs': "build_records env df eid ks = Inr rs'" and rs: "rs = r # rs'"
    by (auto simp: bind_err_def split: sum.splits)
  from Cons.IH [OF rs'] r rs show ?case
    by (auto simp: nth_Cons split: nat.splits)
qed

lemma prepare_returns:
  "convertible env df \<Longrightarrow> \<exists>rs. prepare_for_database env df eid = Inr rs"
  unfolding prepare_for_database_def
  by (rule build_records_returns) (simp add: make_record_returns)

lemma prepare_each:
  assumes "prepare_for_database env df eid = Inr rs"
  shows "length rs = length (index df)"
    and "k < length (index df) \<Longrightarrow> make_record env df eid k = Inr (rs ! k)"
  using build_records_each [OF assms [unfolded prepare_for_database_def]] by simp_all

text \<open>
  Claim C3, amended. When no conversion raises, \<open>prepare_for_database\<close> returns one
  record per row, in row order, and the sequence number of each record is the index label of
  its row plus one. For a table with the default index 0, 1, ..., n - 1 these are the
  positions 1, 2, ..., n.
\<close>

theorem sequence_numbers_follow_index:
  assumes "convertible env df"
  shows "\<exists>rs. prepare_for_database env df eid = Inr rs \<and>
           length rs = length (index df) \<and>
           map sequence_number rs = map (\<lambda>idx. idx + 1) (index df) \<and>
           (index df = map int [0..<length (index df)] \<longrightarrow>
              map sequence_number rs = map int [1..<Suc (length (index df))])"
proof -
  from prepare_returns [OF assms] obtain rs where rs: "prepare_for_database env df eid = Inr rs"
    by blast
  note e = prepare_each [OF rs]
  have s: "map sequence_number rs = map (\<lambda>idx. idx + 1) (index df)"
    using e(1) make_record_fields(1) [OF e(2)] by (simp add: list_eq_iff_nth_eq)
  have "map (\<lambda>idx. idx + 1) (map int [0..<n]) = map int [1..<Suc n]" for n
    by (induction n) simp_all
  with s have "index df = map int [0..<length (index df)] \<longrightarrow>
      map sequence_number rs = map int [1..<Suc (length (index df))]"
    by metis
  with rs e(1) s show ?thesis by blast
qed


lemma ex_sorted_cols:
  "get_col ex_sorted c_current = Some [F (Fin 2), F (Fin 1)]"
  "get_col ex_sorted c_voltage = None" "get_col ex_sorted c_power = None"
  "get_col ex_sorted c_device_address = None" "get_col ex_sorted c_device_type = None"
  "get_col ex_sorted c_timestamp = None" "get_col ex_sorted c_temperature = None"
  "get_col ex_sorted c_humidity = None"
  by (simp_all add: ex_sorted_def get_col_def c_current_def c_voltage_def c_power_def
      c_device_address_def c_device_type_def c_timestamp_def c_temperature_def c_humidity_def)

lemma ex_sorted_prepare: "prepare_for_database ex_env ex_sorted ''E1'' = Inr ex_sorted_records"
proof -
  have "[0..<length (index ex_sorted)] = [0, 1]"
    by (simp add: ex_sorted_def upt_rec)
  then show ?thesis
    by (simp add: prepare_for_database_def make_record_def get_float_def get_optional_def
        row_get_def ex_sorted_cols py_float_def bind_err_def ex_sorted_records_def Let_def)
       (simp add: ex_sorted_def ex_env_def)
qed

text \<open>
  Claim C3, as stated, fails: the sequence number is the index label of the row plus one,
  not its position. A table of two rows that was sorted, so that its index reads 1, 0,
  gets the sequence numbers 2, 1.
\<close>

theorem sequence_numbers_counterexample:
  "prepare_for_database ex_env ex_sorted ''E1'' = Inr ex_sorted_records \<and>
   map sequence_number ex_sorted_records = [2, 1]"
  by (simp add: ex_sorted_prepare) (simp add: ex_sorted_records_def)

lemma ex_sorted_convertible: "convertible ex_env ex_sorted"
proof -
  have "length (index ex_sorted) = 2"
    by (simp add: ex_sorted_def)
  then show ?thesis
    by (simp add: convertible_def row_get_def ex_sorted_cols float_ok_def less_2_cases_iff)
qed

lemma ex_validated_convertible: "convertible ex_env ex_validated"
proof -
  have "get_col ex_validated c_current = Some [F (Fin 1), F (Fin 2)]"
    "get_col ex_validated c_voltage = Some [F (Fin 10), F (Fin 20)]"
    "get_col ex_validated c_power = Some [F (Fin 10), F (Fin 41)]"
    "get_col ex_validated c_device_address = None"
    "get_col ex_validated c_temperature = None"
    "get_col ex_validated c_humidity = None"
    by (simp_all add: ex_validated_def get_col_def c_current_def c_voltage_def c_power_def
      c_device_address_def c_temperature_def c_humidity_def)
  moreover have "length (index ex_validated) = 2"
    by (simp add: ex_validated_def)
  ultimately show ?thesis
    by (simp add: convertible_def row_get_def float_ok_def less_2_cases_iff)
qed

theorem sequence_numbers_follow_index_witness:
  "convertible ex_env ex_validated \<and>
   (\<exists>rs. prepare_for_database ex_env ex_validated ''E1'' = Inr rs \<and>
         map sequence_number rs = [1, 2]) \<and>
   convertible ex_env ex_sorted \<and>
   (\<exists>rs. prepare_for_database ex_env ex_sorted ''E1'' = Inr rs \<and>
         map sequence_number rs = [2, 1])"
  using sequence_numbers_follow_index [OF ex_validated_convertible, of "''E1''"]
    sequence_numbers_follow_index [OF ex_sorted_convertible, of "''E1''"]
    ex_validated_convertible ex_sorted_convertible
  by (auto simp: ex_validated_def ex_sorted_def)


end
